theory Spec2Isabelle
  imports Main "HOL-Library.Word" "HOL-Library.Monad_Syntax"
begin

unbundle bit_operations_syntax

section \<open>The PCF message decoder (package pcf: Parser, ParseMessage and its helpers)\<close>

text \<open>
  The decoder works on a complete message buffer (\<^verbatim>\<open>[]byte\<close>).  Bytes are 8-bit words,
  the \<^verbatim>\<open>int32\<close> fields of the Go structs are 32-bit words read with \<open>sint\<close> where the
  source compares them as signed numbers, and a Go \<^verbatim>\<open>string\<close> is the sequence of its bytes.

  Conventions of the embedding:
  \<^item> a Go function that can panic at run time (slice bounds, nil dereference) returns an
    \<open>option\<close>, \<open>None\<close> being the panic;
  \<^item> a Go result pair \<^verbatim>\<open>(x, err)\<close> is a pair whose second component is an
    \<open>error option\<close>, \<open>None\<close> being \<^verbatim>\<open>nil\<close>; a pointer that may be \<^verbatim>\<open>nil\<close> is an
    \<open>option\<close> as well;
  \<^item> indices and the cursor \<^verbatim>\<open>offset\<close> of the parameter loop are Go \<^verbatim>\<open>int\<close>s; they are
    unbounded integers here, as the cursor starts at 0, only grows, and stays below
    \<^verbatim>\<open>len(data) + 65540\<close>, far from the 64-bit limit for any buffer that fits in memory;
  \<^item> calls to the logger have no effect on the results and are left out; the parser is
    assumed to be built by \<^verbatim>\<open>NewParser\<close> with a logger that is not \<^verbatim>\<open>nil\<close>.
\<close>

type_synonym byte = "8 word"
type_synonym int32 = "32 word"
type_synonym gostring = "byte list"

text \<open>A string literal of the source, as the bytes of a Go string.\<close>

definition go_str :: "string \<Rightarrow> gostring" where
  "go_str s = map of_char s"

text \<open>
  Error values: \<^verbatim>\<open>fmt.Errorf\<close> with a plain message, with one \<^verbatim>\<open>%s\<close> argument, and with
  a wrapped error (\<^verbatim>\<open>%w\<close>).
\<close>

datatype error =
    Errorf string
  | Errorf_s string gostring
  | Errorf_w string error

subsection \<open>Slices and byte order\<close>

text \<open>
  \<^verbatim>\<open>s[lo:hi]\<close>.  Go panics unless \<open>0 \<le> lo \<le> hi \<le> cap s\<close>; the model panics already
  beyond \<open>length s\<close>, which is the stricter check, so a run without panic in the model is
  a run without panic in Go, on the same bytes.
\<close>

definition slice :: "'a list \<Rightarrow> int \<Rightarrow> int \<Rightarrow> 'a list option" where
  "slice s lo hi =
     (if 0 \<le> lo \<and> lo \<le> hi \<and> hi \<le> int (length s)
      then Some (take (nat (hi - lo)) (drop (nat lo) s)) else None)"

text \<open>\<^verbatim>\<open>s[lo:]\<close>\<close>

definition slice_from :: "'a list \<Rightarrow> int \<Rightarrow> 'a list option" where
  "slice_from s lo = slice s lo (int (length s))"

text \<open>
  \<^verbatim>\<open>binary.LittleEndian.Uint32(b)\<close>: panics when \<open>b\<close> has fewer than four bytes, and is
  \<^verbatim>\<open>uint32(b[0]) | uint32(b[1])<<8 | uint32(b[2])<<16 | uint32(b[3])<<24\<close> otherwise.
  The conversion to \<^verbatim>\<open>int32\<close> that follows every call in the source keeps the 32 bits.
\<close>

fun LittleEndian_Uint32 :: "byte list \<Rightarrow> int32 option" where
  "LittleEndian_Uint32 (b0 # b1 # b2 # b3 # _) =
     Some (ucast b0 OR push_bit 8 (ucast b1) OR push_bit 16 (ucast b2) OR push_bit 24 (ucast b3))"
| "LittleEndian_Uint32 _ = None"

text \<open>
  \<^verbatim>\<open>binary.LittleEndian.PutUint32\<close>, as the four bytes it stores: the test helper
  \<^verbatim>\<open>createTestPCFHeader\<close> builds headers with it.
\<close>

definition LittleEndian_PutUint32 :: "int32 \<Rightarrow> byte list" where
  "LittleEndian_PutUint32 v = [ucast v, ucast (drop_bit 8 v), ucast (drop_bit 16 v), ucast (drop_bit 24 v)]"

text \<open>The 32-bit field at a byte offset: \<^verbatim>\<open>int32(binary.LittleEndian.Uint32(data[lo:lo+4]))\<close>.\<close>

definition read_int32 :: "byte list \<Rightarrow> int \<Rightarrow> int32 option" where
  "read_int32 data lo = slice data lo (lo + 4) \<bind> LittleEndian_Uint32"

subsection \<open>Constants\<close>

definition MQCFT_INTEGER :: int32 where "MQCFT_INTEGER = 0x00000003"
definition MQCFT_STRING :: int32 where "MQCFT_STRING = 0x00000004"
definition MQCFT_BYTE_STRING :: int32 where "MQCFT_BYTE_STRING = 0x00000009"

definition MQCMD_STATISTICS_MQI :: int32 where "MQCMD_STATISTICS_MQI = 0x00000070"
definition MQCMD_STATISTICS_Q :: int32 where "MQCMD_STATISTICS_Q = 0x00000071"
definition MQCMD_STATISTICS_CHANNEL :: int32 where "MQCMD_STATISTICS_CHANNEL = 0x00000072"
definition MQCMD_ACCOUNTING_MQI :: int32 where "MQCMD_ACCOUNTING_MQI = 0x0000008A"
definition MQCMD_ACCOUNTING_Q :: int32 where "MQCMD_ACCOUNTING_Q = 0x0000008B"

definition MQCA_Q_NAME :: int32 where "MQCA_Q_NAME = 2016"
definition MQCA_Q_MGR_NAME :: int32 where "MQCA_Q_MGR_NAME = 2002"
definition MQCA_CHANNEL_NAME :: int32 where "MQCA_CHANNEL_NAME = 3501"
definition MQCA_CONNECTION_NAME :: int32 where "MQCA_CONNECTION_NAME = 3502"
definition MQCA_APPL_NAME :: int32 where "MQCA_APPL_NAME = 2024"
definition MQIA_CURRENT_Q_DEPTH :: int32 where "MQIA_CURRENT_Q_DEPTH = 3"
definition MQIA_OPEN_INPUT_COUNT :: int32 where "MQIA_OPEN_INPUT_COUNT = 65"
definition MQIA_OPEN_OUTPUT_COUNT :: int32 where "MQIA_OPEN_OUTPUT_COUNT = 66"
definition MQIA_HIGH_Q_DEPTH :: int32 where "MQIA_HIGH_Q_DEPTH = 36"
definition MQIA_MSG_DEQ_COUNT :: int32 where "MQIA_MSG_DEQ_COUNT = 38"
definition MQIA_MSG_ENQ_COUNT :: int32 where "MQIA_MSG_ENQ_COUNT = 37"
definition MQIACH_MSGS :: int32 where "MQIACH_MSGS = 1501"
definition MQIACH_BYTES :: int32 where "MQIACH_BYTES = 1502"
definition MQIACH_BATCHES :: int32 where "MQIACH_BATCHES = 1503"
definition MQIAMO_OPENS :: int32 where "MQIAMO_OPENS = 3"
definition MQIAMO_CLOSES :: int32 where "MQIAMO_CLOSES = 4"
definition MQIAMO_PUTS :: int32 where "MQIAMO_PUTS = 17"
definition MQIAMO_GETS :: int32 where "MQIAMO_GETS = 18"
definition MQIAMO_COMMITS :: int32 where "MQIAMO_COMMITS = 12"
definition MQIAMO_BACKOUTS :: int32 where "MQIAMO_BACKOUTS = 13"
definition MQCACF_COMMAND_TIME :: int32 where "MQCACF_COMMAND_TIME = 3603"

subsection \<open>The header\<close>

record PCFHeader =
  Type :: int32
  StrucLength :: int32
  Version :: int32
  Command :: int32
  MsgSeqNumber :: int32
  Control :: int32
  CompCode :: int32
  Reason :: int32
  ParameterCount :: int32

text \<open>
  \<^verbatim>\<open>parseHeader\<close>: the error for a short buffer, the nine fields otherwise.  None of the
  nine slice expressions can panic once the length check has passed; the model keeps
  them as possible panics and the lemmas below show that none happens.
\<close>

definition parseHeader :: "byte list \<Rightarrow> (PCFHeader option \<times> error option) option" where
  "parseHeader data =
     (if length data < 36 then Some (None, Some (Errorf ''insufficient data for PCF header''))
      else do {
        ty \<leftarrow> read_int32 data 0;
        strucLength \<leftarrow> read_int32 data 4;
        version \<leftarrow> read_int32 data 8;
        command \<leftarrow> read_int32 data 12;
        msgSeqNumber \<leftarrow> read_int32 data 16;
        control \<leftarrow> read_int32 data 20;
        compCode \<leftarrow> read_int32 data 24;
        reason \<leftarrow> read_int32 data 28;
        parameterCount \<leftarrow> read_int32 data 32;
        Some (Some \<lparr> PCFHeader.Type = ty, StrucLength = strucLength, Version = version,
                     Command = command, MsgSeqNumber = msgSeqNumber, Control = control,
                     CompCode = compCode, Reason = reason, ParameterCount = parameterCount \<rparr>,
              None)
      })"

text \<open>
  The encoding the round-trip property speaks of: the nine fields as 4-byte little-endian
  words at offsets 0, 4, ..., 32 (what \<^verbatim>\<open>createTestPCFHeader\<close> writes, for any field
  values).
\<close>

definition encodeHeader :: "PCFHeader \<Rightarrow> byte list" where
  "encodeHeader h =
     LittleEndian_PutUint32 (PCFHeader.Type h) @ LittleEndian_PutUint32 (StrucLength h) @
     LittleEndian_PutUint32 (Version h) @ LittleEndian_PutUint32 (Command h) @
     LittleEndian_PutUint32 (MsgSeqNumber h) @ LittleEndian_PutUint32 (Control h) @
     LittleEndian_PutUint32 (CompCode h) @ LittleEndian_PutUint32 (Reason h) @
     LittleEndian_PutUint32 (ParameterCount h)"

subsection \<open>Parameters\<close>

text \<open>
  The dynamic value of \<^verbatim>\<open>PCFParameter.Value\<close> (an \<^verbatim>\<open>interface{}\<close>): \<^verbatim>\<open>nil\<close>, an
  \<^verbatim>\<open>int32\<close>, a \<^verbatim>\<open>string\<close> or a \<^verbatim>\<open>[]byte\<close>.  The type assertions of the source
  (\<^verbatim>\<open>param.Value.(int32)\<close>, \<^verbatim>\<open>param.Value.(string)\<close>) are case distinctions on it.
\<close>

datatype pcf_value = VNil | VInt32 int32 | VString gostring | VBytes "byte list"

record PCFParameter =
  Parameter :: int32
  Type :: int32
  Length :: int32
  Value :: pcf_value

subsection \<open>cleanString\<close>

text \<open>
  \<^verbatim>\<open>for i, r := range s\<close> walks the string by UTF-8 code points: at byte index \<open>i\<close> it
  decodes one code point from \<open>s[i:]\<close> and yields its value and its width in bytes; an
  invalid or incomplete sequence yields \<open>0xFFFD\<close> with width 1 (Go language specification,
  "For statements with range clause"; \<^verbatim>\<open>utf8.DecodeRuneInString\<close>).  \<open>decodeRune\<close> is
  that decoding step on the remaining bytes, with the ranges Go accepts for the second
  byte after the lead bytes \<open>E0\<close>, \<open>ED\<close>, \<open>F0\<close> and \<open>F4\<close>.
\<close>

definition in_range :: "byte \<Rightarrow> nat \<Rightarrow> nat \<Rightarrow> bool" where
  "in_range b lo hi = (lo \<le> unat b \<and> unat b \<le> hi)"

definition RuneError :: nat where
  "RuneError = 0xFFFD"

fun decodeRune :: "byte list \<Rightarrow> nat \<times> nat" where
  "decodeRune [] = (RuneError, 0)"
| "decodeRune (s0 # rest) =
     (let c0 = unat s0 in
      if c0 < 0x80 then (c0, 1)
      else if c0 < 0xC2 \<or> 0xF4 < c0 then (RuneError, 1)
      else if c0 < 0xE0 then
        (case rest of
           s1 # _ \<Rightarrow>
             if in_range s1 0x80 0xBF
             then ((c0 - 0xC0) * 64 + (unat s1 - 0x80), 2)
             else (RuneError, 1)
         | _ \<Rightarrow> (RuneError, 1))
      else if c0 < 0xF0 then
        (case rest of
           s1 # s2 # _ \<Rightarrow>
             if in_range s1 (if c0 = 0xE0 then 0xA0 else 0x80) (if c0 = 0xED then 0x9F else 0xBF)
                \<and> in_range s2 0x80 0xBF
             then ((c0 - 0xE0) * 4096 + (unat s1 - 0x80) * 64 + (unat s2 - 0x80), 3)
             else (RuneError, 1)
         | _ \<Rightarrow> (RuneError, 1))
      else
        (case rest of
           s1 # s2 # s3 # _ \<Rightarrow>
             if in_range s1 (if c0 = 0xF0 then 0x90 else 0x80) (if c0 = 0xF4 then 0x8F else 0xBF)
                \<and> in_range s2 0x80 0xBF \<and> in_range s3 0x80 0xBF
             then ((c0 - 0xF0) * 262144 + (unat s1 - 0x80) * 4096 + (unat s2 - 0x80) * 64
                   + (unat s3 - 0x80), 4)
             else (RuneError, 1)
         | _ \<Rightarrow> (RuneError, 1)))"

text \<open>
  The loop of \<^verbatim>\<open>cleanString\<close>: at the first code point that is 0 the string is cut
  (\<^verbatim>\<open>s = s[:i]\<close>, with \<open>i < len(s)\<close>, so the slice cannot panic) and the loop is left;
  nothing else is done to the string (the "trim whitespace" of the comments is not in the
  code).
\<close>

function cleanString_loop :: "gostring \<Rightarrow> nat \<Rightarrow> gostring" where
  "cleanString_loop s i =
     (if i < length s then
        (case decodeRune (drop i s) of
           (r, w) \<Rightarrow> if r = 0 then take i s else cleanString_loop s (i + w))
      else s)"
  by pat_completeness auto

definition cleanString :: "gostring \<Rightarrow> gostring" where
  "cleanString s = cleanString_loop s 0"

subsection \<open>parseParameters\<close>

text \<open>
  The \<^verbatim>\<open>switch param.Type\<close> of the loop body: the value of the parameter at \<open>offset\<close>
  whose type tag is \<open>ty\<close> and whose declared length is \<open>len\<close>.  \<^verbatim>\<open>param.Length - 12\<close> is
  an \<^verbatim>\<open>int32\<close> subtraction, converted to \<^verbatim>\<open>int\<close> for the slice bound.
\<close>

definition parseParameters_value :: "byte list \<Rightarrow> int \<Rightarrow> int32 \<Rightarrow> int32 \<Rightarrow> pcf_value option" where
  "parseParameters_value data offset ty len =
     (if ty = MQCFT_INTEGER then
        (if 16 \<le> sint len
         then map_option VInt32 (read_int32 data (offset + 12))
         else Some VNil)
      else if ty = MQCFT_STRING then
        (if 12 < sint len
         then (let strLen = len - 12 in
               map_option (\<lambda>str. VString (cleanString str))
                 (slice data (offset + 12) (offset + 12 + sint strLen)))
         else Some VNil)
      else if ty = MQCFT_BYTE_STRING then
        (if 12 < sint len
         then (let dataLen = len - 12 in
               map_option VBytes (slice data (offset + 12) (offset + 12 + sint dataLen)))
         else Some VNil)
      else Some VNil)"

text \<open>
  One pass through the body of the \<^verbatim>\<open>for offset < len(data)\<close> loop, at cursor \<open>offset\<close>:
  \<open>None\<close> is a panic, \<open>Some None\<close> is \<^verbatim>\<open>break\<close>, and \<open>Some (Some (param, offset'))\<close> is
  the parameter appended to the result and the cursor for the next pass.  The cursor is
  never negative in a run, so Go's \<^verbatim>\<open>%\<close> is \<open>mod\<close> there.
\<close>

definition parseParameters_body :: "byte list \<Rightarrow> int \<Rightarrow> (PCFParameter \<times> int) option option" where
  "parseParameters_body data offset =
     (if offset + 12 > int (length data) then Some None
      else do {
        parameter \<leftarrow> read_int32 data offset;
        ty \<leftarrow> read_int32 data (offset + 4);
        len \<leftarrow> read_int32 data (offset + 8);
        if sint len < 12 \<or> sint len > 65536 then Some None
        else if offset + sint len > int (length data) then Some None
        else do {
          v \<leftarrow> parseParameters_value data offset ty len;
          let offset1 = offset + sint len;
          let offset2 = (if offset1 mod 4 \<noteq> 0 then offset1 + (4 - offset1 mod 4) else offset1);
          Some (Some (\<lparr> Parameter = parameter, PCFParameter.Type = ty, Length = len, Value = v \<rparr>,
                      offset2))
        }
      })"

function parseParameters_loop ::
  "byte list \<Rightarrow> int \<Rightarrow> PCFParameter list \<Rightarrow> PCFParameter list option" where
  "parseParameters_loop data offset parameters =
     (if offset < int (length data) then
        (case parseParameters_body data offset of
           None \<Rightarrow> None
         | Some None \<Rightarrow> Some parameters
         | Some (Some (param, offset')) \<Rightarrow>
             parseParameters_loop data offset' (parameters @ [param]))
      else Some parameters)"
  by pat_completeness auto

text \<open>
  \<^verbatim>\<open>parseParameters\<close>: the loop from cursor 0 with no parameters, and the \<^verbatim>\<open>nil\<close> error of
  its only \<^verbatim>\<open>return\<close>.  The argument \<open>count\<close> is not used by the source.
\<close>

definition parseParameters ::
  "byte list \<Rightarrow> int32 \<Rightarrow> (PCFParameter list \<times> error option) option" where
  "parseParameters data count =
     map_option (\<lambda>parameters. (parameters, None)) (parseParameters_loop data 0 [])"

text \<open>
  The states of the loop: \<open>reaches data offset parameters\<close> holds when a run of
  \<open>parseParameters\<close> on \<open>data\<close> arrives at the loop test with that cursor and those
  parameters decoded so far.
\<close>

inductive reaches :: "byte list \<Rightarrow> int \<Rightarrow> PCFParameter list \<Rightarrow> bool" for data where
  start: "reaches data 0 []"
| step: "reaches data offset parameters \<Longrightarrow> offset < int (length data) \<Longrightarrow>
         parseParameters_body data offset = Some (Some (param, offset')) \<Longrightarrow>
         reaches data offset' (parameters @ [param])"

code_pred reaches .

text \<open>
  The alignment step at the end of the loop body, as a function of the cursor after the
  declared length has been added (the expression \<open>offset2\<close> of \<open>parseParameters_body\<close>).
\<close>

definition align4 :: "int \<Rightarrow> int" where
  "align4 n = (if n mod 4 \<noteq> 0 then n + (4 - n mod 4) else n)"

text \<open>A length rounded up to the next multiple of 4, as the specification words it.\<close>

definition round_up4 :: "int \<Rightarrow> int" where
  "round_up4 n = (n + 3) div 4 * 4"

subsection \<open>The raw parameter map\<close>

text \<open>
  \<^verbatim>\<open>fmt.Sprintf("param_%d", param.Parameter)\<close>: the decimal digits of the tag, with a minus
  sign when it is negative.
\<close>

fun decimal :: "nat \<Rightarrow> gostring" where
  "decimal n = (if n < 10 then [of_nat (48 + n)] else decimal (n div 10) @ [of_nat (48 + n mod 10)])"

definition Sprintf_d :: "int \<Rightarrow> gostring" where
  "Sprintf_d i = (if i < 0 then 0x2D # decimal (nat (- i)) else decimal (nat i))"

definition param_key :: "int32 \<Rightarrow> gostring" where
  "param_key tag = go_str ''param_'' @ Sprintf_d (sint tag)"

text \<open>
  \<^verbatim>\<open>convertParameters\<close>: a map from \<^verbatim>\<open>"param_<tag>"\<close> to the value, filled in the order of
  the parameters, a later parameter with the same tag replacing the earlier one.  A key
  whose value is \<^verbatim>\<open>nil\<close> is in the map, with the value \<open>VNil\<close>.
\<close>

definition convertParameters :: "PCFParameter list \<Rightarrow> (gostring \<rightharpoonup> pcf_value)" where
  "convertParameters parameters =
     foldl (\<lambda>result param. result(param_key (Parameter param) \<mapsto> Value param)) Map.empty parameters"

subsection \<open>Time\<close>

text \<open>
  \<^verbatim>\<open>time.Now\<close>, \<^verbatim>\<open>time.Parse\<close> and the zero \<^verbatim>\<open>time.Time\<close> belong to the Go library; the
  decoder is modelled for any choice of them.  \<open>time_Parse layout value\<close> is \<open>None\<close> when
  \<^verbatim>\<open>time.Parse\<close> returns an error.  Each run of \<^verbatim>\<open>ParseMessage\<close> reads the clock once.
\<close>

record 't time_env =
  time_Now :: 't
  time_Parse :: "gostring \<Rightarrow> gostring \<Rightarrow> 't option"
  time_Zero :: 't

definition parseMQTimestamp_formats :: "gostring list" where
  "parseMQTimestamp_formats =
     [go_str ''2006-01-02 15:04:05.000'', go_str ''2006-01-02 15:04:05'', go_str ''20060102150405'',
      go_str ''2006-01-02T15:04:05Z'', go_str ''2006-01-02T15:04:05.000Z'']"

fun parseMQTimestamp_loop :: "'t time_env \<Rightarrow> gostring list \<Rightarrow> gostring \<Rightarrow> 't \<times> error option" where
  "parseMQTimestamp_loop env [] timestamp =
     (time_Zero env, Some (Errorf_s ''unable to parse timestamp: %s'' timestamp))"
| "parseMQTimestamp_loop env (format # formats) timestamp =
     (case time_Parse env format timestamp of
        Some t \<Rightarrow> (t, None)
      | None \<Rightarrow> parseMQTimestamp_loop env formats timestamp)"

definition parseMQTimestamp :: "'t time_env \<Rightarrow> gostring \<Rightarrow> 't \<times> error option" where
  "parseMQTimestamp env timestamp = parseMQTimestamp_loop env parseMQTimestamp_formats timestamp"

subsection \<open>Statistics records\<close>

record QueueStatistics =
  QueueName :: gostring
  CurrentDepth :: int32
  HighDepth :: int32
  InputCount :: int32
  OutputCount :: int32
  EnqueueCount :: int32
  DequeueCount :: int32
  HasReaders :: bool
  HasWriters :: bool

record ChannelStatistics =
  ChannelName :: gostring
  ConnectionName :: gostring
  Messages :: int32
  Bytes :: "64 word"
  Batches :: int32

record MQIStatistics =
  ApplicationName :: gostring
  Opens :: int32
  Closes :: int32
  Puts :: int32
  Gets :: int32
  Commits :: int32
  Backouts :: int32

record 't StatisticsData =
  Type :: gostring
  QueueManager :: gostring
  Timestamp :: 't
  Parameters :: "gostring \<rightharpoonup> pcf_value"
  QueueStats :: "QueueStatistics option"
  ChannelStats :: "ChannelStatistics option"
  MQIStats :: "MQIStatistics option"

record 't ConnectionInfo =
  ChannelName :: gostring
  ConnectionName :: gostring
  ApplicationName :: gostring
  ConnectTime :: 't
  DisconnectTime :: 't

record OperationCounts =
  Gets :: int32
  Puts :: int32
  Browses :: int32
  Opens :: int32
  Closes :: int32
  Commits :: int32
  Backouts :: int32

record 't AccountingData =
  Type :: gostring
  QueueManager :: gostring
  Timestamp :: 't
  Parameters :: "gostring \<rightharpoonup> pcf_value"
  ConnectionInfo :: "'t ConnectionInfo option"
  Operations :: "OperationCounts option"

text \<open>
  \<^verbatim>\<open>parseQueueStats\<close>: \<^verbatim>\<open>stats := &QueueStatistics{}\<close> is the record of zero values, and
  the \<^verbatim>\<open>for _, param := range parameters\<close> loop is a left fold of its body.  The body
  first asks whether the value is an \<^verbatim>\<open>int32\<close>, then whether it is a \<^verbatim>\<open>string\<close>;
  \<^verbatim>\<open>val > 0\<close> compares signed 32-bit numbers.
\<close>

definition QueueStatistics_zero :: QueueStatistics where
  "QueueStatistics_zero =
     \<lparr> QueueName = [], CurrentDepth = 0, HighDepth = 0, InputCount = 0, OutputCount = 0,
       EnqueueCount = 0, DequeueCount = 0, HasReaders = False, HasWriters = False \<rparr>"

definition parseQueueStats_body :: "QueueStatistics \<Rightarrow> PCFParameter \<Rightarrow> QueueStatistics" where
  "parseQueueStats_body stats param =
     (case Value param of
        VInt32 val \<Rightarrow>
          if Parameter param = MQIA_CURRENT_Q_DEPTH then stats\<lparr>CurrentDepth := val\<rparr>
          else if Parameter param = MQIA_HIGH_Q_DEPTH then stats\<lparr>HighDepth := val\<rparr>
          else if Parameter param = MQIA_OPEN_INPUT_COUNT
            then stats\<lparr>InputCount := val, HasReaders := (0 < sint val)\<rparr>
          else if Parameter param = MQIA_OPEN_OUTPUT_COUNT
            then stats\<lparr>OutputCount := val, HasWriters := (0 < sint val)\<rparr>
          else if Parameter param = MQIA_MSG_ENQ_COUNT then stats\<lparr>EnqueueCount := val\<rparr>
          else if Parameter param = MQIA_MSG_DEQ_COUNT then stats\<lparr>DequeueCount := val\<rparr>
          else stats
      | VString str \<Rightarrow>
          if Parameter param = MQCA_Q_NAME then stats\<lparr>QueueName := str\<rparr> else stats
      | _ \<Rightarrow> stats)"

definition parseQueueStats :: "PCFParameter list \<Rightarrow> QueueStatistics" where
  "parseQueueStats parameters = foldl parseQueueStats_body QueueStatistics_zero parameters"

definition ChannelStatistics_zero :: ChannelStatistics where
  "ChannelStatistics_zero =
     \<lparr> ChannelStatistics.ChannelName = [], ChannelStatistics.ConnectionName = [],
       Messages = 0, Bytes = 0, Batches = 0 \<rparr>"

definition parseChannelStats_body :: "ChannelStatistics \<Rightarrow> PCFParameter \<Rightarrow> ChannelStatistics" where
  "parseChannelStats_body stats param =
     (case Value param of
        VInt32 val \<Rightarrow>
          if Parameter param = MQIACH_MSGS then stats\<lparr>Messages := val\<rparr>
          else if Parameter param = MQIACH_BYTES then stats\<lparr>Bytes := scast val\<rparr>
          else if Parameter param = MQIACH_BATCHES then stats\<lparr>Batches := val\<rparr>
          else stats
      | VString str \<Rightarrow>
          if Parameter param = MQCA_CHANNEL_NAME then stats\<lparr>ChannelStatistics.ChannelName := str\<rparr>
          else if Parameter param = MQCA_CONNECTION_NAME
            then stats\<lparr>ChannelStatistics.ConnectionName := str\<rparr>
          else stats
      | _ \<Rightarrow> stats)"

definition parseChannelStats :: "PCFParameter list \<Rightarrow> ChannelStatistics" where
  "parseChannelStats parameters = foldl parseChannelStats_body ChannelStatistics_zero parameters"

definition MQIStatistics_zero :: MQIStatistics where
  "MQIStatistics_zero =
     \<lparr> MQIStatistics.ApplicationName = [], MQIStatistics.Opens = 0, MQIStatistics.Closes = 0,
       MQIStatistics.Puts = 0, MQIStatistics.Gets = 0, MQIStatistics.Commits = 0,
       MQIStatistics.Backouts = 0 \<rparr>"

definition parseMQIStats_body :: "MQIStatistics \<Rightarrow> PCFParameter \<Rightarrow> MQIStatistics" where
  "parseMQIStats_body stats param =
     (case Value param of
        VInt32 val \<Rightarrow>
          if Parameter param = MQIAMO_OPENS then stats\<lparr>MQIStatistics.Opens := val\<rparr>
          else if Parameter param = MQIAMO_CLOSES then stats\<lparr>MQIStatistics.Closes := val\<rparr>
          else if Parameter param = MQIAMO_PUTS then stats\<lparr>MQIStatistics.Puts := val\<rparr>
          else if Parameter param = MQIAMO_GETS then stats\<lparr>MQIStatistics.Gets := val\<rparr>
          else if Parameter param = MQIAMO_COMMITS then stats\<lparr>MQIStatistics.Commits := val\<rparr>
          else if Parameter param = MQIAMO_BACKOUTS then stats\<lparr>MQIStatistics.Backouts := val\<rparr>
          else stats
      | VString str \<Rightarrow>
          if Parameter param = MQCA_APPL_NAME then stats\<lparr>MQIStatistics.ApplicationName := str\<rparr>
          else stats
      | _ \<Rightarrow> stats)"

definition parseMQIStats :: "PCFParameter list \<Rightarrow> MQIStatistics" where
  "parseMQIStats parameters = foldl parseMQIStats_body MQIStatistics_zero parameters"

definition ConnectionInfo_zero :: "'t time_env \<Rightarrow> 't ConnectionInfo" where
  "ConnectionInfo_zero env =
     \<lparr> ConnectionInfo.ChannelName = [], ConnectionInfo.ConnectionName = [],
       ConnectionInfo.ApplicationName = [], ConnectTime = time_Zero env,
       DisconnectTime = time_Zero env \<rparr>"

definition parseConnectionInfo_body :: "'t ConnectionInfo \<Rightarrow> PCFParameter \<Rightarrow> 't ConnectionInfo" where
  "parseConnectionInfo_body info param =
     (case Value param of
        VString str \<Rightarrow>
          if Parameter param = MQCA_CHANNEL_NAME then info\<lparr>ConnectionInfo.ChannelName := str\<rparr>
          else if Parameter param = MQCA_CONNECTION_NAME
            then info\<lparr>ConnectionInfo.ConnectionName := str\<rparr>
          else if Parameter param = MQCA_APPL_NAME
            then info\<lparr>ConnectionInfo.ApplicationName := str\<rparr>
          else info
      | _ \<Rightarrow> info)"

definition parseConnectionInfo :: "'t time_env \<Rightarrow> PCFParameter list \<Rightarrow> 't ConnectionInfo" where
  "parseConnectionInfo env parameters =
     foldl parseConnectionInfo_body (ConnectionInfo_zero env) parameters"

definition OperationCounts_zero :: OperationCounts where
  "OperationCounts_zero =
     \<lparr> OperationCounts.Gets = 0, OperationCounts.Puts = 0, Browses = 0, OperationCounts.Opens = 0,
       OperationCounts.Closes = 0, OperationCounts.Commits = 0, OperationCounts.Backouts = 0 \<rparr>"

definition parseOperationCounts_body :: "OperationCounts \<Rightarrow> PCFParameter \<Rightarrow> OperationCounts" where
  "parseOperationCounts_body ops param =
     (case Value param of
        VInt32 val \<Rightarrow>
          if Parameter param = MQIAMO_GETS then ops\<lparr>OperationCounts.Gets := val\<rparr>
          else if Parameter param = MQIAMO_PUTS then ops\<lparr>OperationCounts.Puts := val\<rparr>
          else if Parameter param = MQIAMO_OPENS then ops\<lparr>OperationCounts.Opens := val\<rparr>
          else if Parameter param = MQIAMO_CLOSES then ops\<lparr>OperationCounts.Closes := val\<rparr>
          else if Parameter param = MQIAMO_COMMITS then ops\<lparr>OperationCounts.Commits := val\<rparr>
          else if Parameter param = MQIAMO_BACKOUTS then ops\<lparr>OperationCounts.Backouts := val\<rparr>
          else ops
      | _ \<Rightarrow> ops)"

definition parseOperationCounts :: "PCFParameter list \<Rightarrow> OperationCounts" where
  "parseOperationCounts parameters = foldl parseOperationCounts_body OperationCounts_zero parameters"

subsection \<open>parseStatistics, parseAccounting and ParseMessage\<close>

text \<open>
  The "common fields" loop of \<^verbatim>\<open>parseStatistics\<close>: the queue manager name, and the
  command time when one of the formats parses it.
\<close>

definition parseStatistics_body ::
  "'t time_env \<Rightarrow> 't StatisticsData \<Rightarrow> PCFParameter \<Rightarrow> 't StatisticsData" where
  "parseStatistics_body env stats param =
     (if Parameter param = MQCA_Q_MGR_NAME then
        (case Value param of
           VString str \<Rightarrow> stats\<lparr>StatisticsData.QueueManager := str\<rparr>
         | _ \<Rightarrow> stats)
      else if Parameter param = MQCACF_COMMAND_TIME then
        (case Value param of
           VString str \<Rightarrow>
             (case parseMQTimestamp env str of
                (t, None) \<Rightarrow> stats\<lparr>StatisticsData.Timestamp := t\<rparr>
              | (t, Some err) \<Rightarrow> stats)
         | _ \<Rightarrow> stats)
      else stats)"

text \<open>
  \<^verbatim>\<open>parseStatistics\<close> returns a pointer to a fresh record, which is never \<^verbatim>\<open>nil\<close>, and a
  \<^verbatim>\<open>nil\<close> error.
\<close>

definition parseStatistics ::
  "'t time_env \<Rightarrow> PCFHeader \<Rightarrow> PCFParameter list \<Rightarrow> 't StatisticsData \<times> error option" where
  "parseStatistics env header parameters =
     (let stats = \<lparr> StatisticsData.Type = go_str ''statistics'', StatisticsData.QueueManager = [],
                    StatisticsData.Timestamp = time_Now env,
                    StatisticsData.Parameters = convertParameters parameters,
                    QueueStats = None, ChannelStats = None, MQIStats = None \<rparr>;
          stats = foldl (parseStatistics_body env) stats parameters;
          stats =
            (if Command header = MQCMD_STATISTICS_Q
               then stats\<lparr>QueueStats := Some (parseQueueStats parameters)\<rparr>
             else if Command header = MQCMD_STATISTICS_CHANNEL
               then stats\<lparr>ChannelStats := Some (parseChannelStats parameters)\<rparr>
             else if Command header = MQCMD_STATISTICS_MQI
               then stats\<lparr>MQIStats := Some (parseMQIStats parameters)\<rparr>
             else stats)
      in (stats, None))"

definition parseAccounting_body ::
  "'t time_env \<Rightarrow> 't AccountingData \<Rightarrow> PCFParameter \<Rightarrow> 't AccountingData" where
  "parseAccounting_body env acct param =
     (if Parameter param = MQCA_Q_MGR_NAME then
        (case Value param of
           VString str \<Rightarrow> acct\<lparr>AccountingData.QueueManager := str\<rparr>
         | _ \<Rightarrow> acct)
      else if Parameter param = MQCACF_COMMAND_TIME then
        (case Value param of
           VString str \<Rightarrow>
             (case parseMQTimestamp env str of
                (t, None) \<Rightarrow> acct\<lparr>AccountingData.Timestamp := t\<rparr>
              | (t, Some err) \<Rightarrow> acct)
         | _ \<Rightarrow> acct)
      else acct)"

definition parseAccounting ::
  "'t time_env \<Rightarrow> PCFHeader \<Rightarrow> PCFParameter list \<Rightarrow> 't AccountingData \<times> error option" where
  "parseAccounting env header parameters =
     (let acct = \<lparr> AccountingData.Type = go_str ''accounting'', AccountingData.QueueManager = [],
                   AccountingData.Timestamp = time_Now env,
                   AccountingData.Parameters = convertParameters parameters,
                   ConnectionInfo = None, Operations = None \<rparr>;
          acct = foldl (parseAccounting_body env) acct parameters;
          acct = acct\<lparr>ConnectionInfo := Some (parseConnectionInfo env parameters)\<rparr>;
          acct = acct\<lparr>Operations := Some (parseOperationCounts parameters)\<rparr>
      in (acct, None))"

text \<open>
  The \<^verbatim>\<open>interface{}\<close> that \<^verbatim>\<open>ParseMessage\<close> returns holds a \<^verbatim>\<open>*StatisticsData\<close> or an
  \<^verbatim>\<open>*AccountingData\<close>; \<open>None\<close> is the \<^verbatim>\<open>nil\<close> interface.
\<close>

datatype 't parsed =
    StatisticsDataPtr "'t StatisticsData"
  | AccountingDataPtr "'t AccountingData"

definition ParseMessage ::
  "'t time_env \<Rightarrow> byte list \<Rightarrow> gostring \<Rightarrow> ('t parsed option \<times> error option) option" where
  "ParseMessage env data msgType =
     (if length data < 36
      then Some (None, Some (Errorf ''message too short to be a valid PCF message''))
      else do {
        (header, err) \<leftarrow> parseHeader data;
        (case err of
           Some e \<Rightarrow> Some (None, Some (Errorf_w ''failed to parse PCF header: %w'' e))
         | None \<Rightarrow> do {
             header \<leftarrow> header;
             rest \<leftarrow> slice_from data 36;
             (parameters, err) \<leftarrow> parseParameters rest (ParameterCount header);
             (case err of
                Some e \<Rightarrow> Some (None, Some (Errorf_w ''failed to parse PCF parameters: %w'' e))
              | None \<Rightarrow>
                  if Command header = MQCMD_STATISTICS_Q \<or> Command header = MQCMD_STATISTICS_CHANNEL
                     \<or> Command header = MQCMD_STATISTICS_MQI
                  then (case parseStatistics env header parameters of
                          (stats, err) \<Rightarrow> Some (Some (StatisticsDataPtr stats), err))
                  else if Command header = MQCMD_ACCOUNTING_Q \<or> Command header = MQCMD_ACCOUNTING_MQI
                  then (case parseAccounting env header parameters of
                          (acct, err) \<Rightarrow> Some (Some (AccountingDataPtr acct), err))
                  else Some (Some (StatisticsDataPtr
                          \<lparr> StatisticsData.Type = msgType, StatisticsData.QueueManager = [],
                            StatisticsData.Timestamp = time_Now env,
                            StatisticsData.Parameters = convertParameters parameters,
                            QueueStats = None, ChannelStats = None, MQIStats = None \<rparr>),
                        None))
           })
      })"

subsection \<open>Notions used in the statements\<close>

text \<open>
  The integer values that a parameter list carries for a tag, in order, and the last of
  them, 0 (the zero value of the field) when there is none.
\<close>

definition int32_values :: "int32 \<Rightarrow> PCFParameter list \<Rightarrow> int32 list" where
  "int32_values tag parameters =
     concat (map (\<lambda>param. case Value param of
                             VInt32 val \<Rightarrow> if Parameter param = tag then [val] else []
                           | _ \<Rightarrow> []) parameters)"

definition last_int32 :: "int32 \<Rightarrow> PCFParameter list \<Rightarrow> int32" where
  "last_int32 tag parameters =
     (if int32_values tag parameters = [] then 0 else last (int32_values tag parameters))"

text \<open>The two groups of command codes that \<^verbatim>\<open>ParseMessage\<close> tells apart.\<close>

definition is_statistics_command :: "int32 \<Rightarrow> bool" where
  "is_statistics_command c =
     (c = MQCMD_STATISTICS_Q \<or> c = MQCMD_STATISTICS_CHANNEL \<or> c = MQCMD_STATISTICS_MQI)"

definition is_accounting_command :: "int32 \<Rightarrow> bool" where
  "is_accounting_command c = (c = MQCMD_ACCOUNTING_Q \<or> c = MQCMD_ACCOUNTING_MQI)"

text \<open>A clock that stands still and a \<^verbatim>\<open>time.Parse\<close> that rejects everything, for the examples.\<close>

definition example_env :: "nat time_env" where
  "example_env = \<lparr> time_Now = 1, time_Parse = (\<lambda>layout v. None), time_Zero = 0 \<rparr>"

subsection \<open>An example parameter stream\<close>

text \<open>
  Four parameters: an integer (tag 65, value 2), one of an unknown type 5 with declared
  length 13, a string (tag 2016) whose payload is \<open>A\<close>, a space, a NUL and \<open>B\<close>, and one
  that declares the length 5.  The decoder returns the first three.
\<close>

definition example_params :: "byte list" where
  "example_params =
     [65, 0, 0, 0,  3, 0, 0, 0,  16, 0, 0, 0,  2, 0, 0, 0,
      7, 0, 0, 0,  5, 0, 0, 0,  13, 0, 0, 0,  9, 0, 0, 0,
      0xE0, 7, 0, 0,  4, 0, 0, 0,  16, 0, 0, 0,  0x41, 0x20, 0, 0x42,
      1, 0, 0, 0,  3, 0, 0, 0,  5, 0, 0, 0]"

definition example_p1 :: PCFParameter where
  "example_p1 = \<lparr> Parameter = 65, PCFParameter.Type = 3, Length = 16, Value = VInt32 2 \<rparr>"

definition example_p2 :: PCFParameter where
  "example_p2 = \<lparr> Parameter = 7, PCFParameter.Type = 5, Length = 13, Value = VNil \<rparr>"

definition example_p3 :: PCFParameter where
  "example_p3 = \<lparr> Parameter = 2016, PCFParameter.Type = 4, Length = 16, Value = VString [0x41, 0x20] \<rparr>"

text \<open>
  A stream of one string parameter (tag 2016) that declares the length 12: its payload is
  empty.
\<close>

definition example_empty_string :: "byte list" where
  "example_empty_string = [0xE0, 7, 0, 0,  4, 0, 0, 0,  12, 0, 0, 0]"

text \<open>Four counts for a queue: 2 readers and 1 writer, then 0 and 0.\<close>

definition example_counts :: "PCFParameter list" where
  "example_counts =
     [\<lparr> Parameter = 65, PCFParameter.Type = 3, Length = 16, Value = VInt32 2 \<rparr>,
      \<lparr> Parameter = 66, PCFParameter.Type = 3, Length = 16, Value = VInt32 1 \<rparr>,
      \<lparr> Parameter = 65, PCFParameter.Type = 3, Length = 16, Value = VInt32 0 \<rparr>,
      \<lparr> Parameter = 66, PCFParameter.Type = 3, Length = 16, Value = VInt32 0 \<rparr>]"

text \<open>
  A message that is only a header, with the command code \<open>0x99\<close>, which is none of the
  statistics and accounting commands.
\<close>

definition example_unknown_message :: "byte list" where
  "example_unknown_message =
     [0x14, 0, 0, 0,  36, 0, 0, 0,  1, 0, 0, 0,  0x99, 0, 0, 0,  1, 0, 0, 0,
      0, 0, 0, 0,  0, 0, 0, 0,  0, 0, 0, 0,  0, 0, 0, 0]"

section \<open>Properties\<close>

subsection \<open>Slices and 32-bit fields\<close>

lemma slice_Some:
  "0 \<le> lo \<Longrightarrow> lo \<le> hi \<Longrightarrow> hi \<le> int (length s) \<Longrightarrow>
   slice s lo hi = Some (take (nat (hi - lo)) (drop (nat lo) s))"
  by (simp add: slice_def)

lemma LittleEndian_Uint32_total:
  "4 \<le> length b \<Longrightarrow> \<exists>v. LittleEndian_Uint32 b = Some v"
  by (cases b rule: LittleEndian_Uint32.cases) auto

lemma read_int32_total:
  assumes "0 \<le> lo" and "lo + 4 \<le> int (length data)"
  shows "\<exists>v. read_int32 data lo = Some v"
proof -
  have "length (take 4 (drop (nat lo) data)) = 4"
    using assms by simp
  then have "\<exists>v. LittleEndian_Uint32 (take 4 (drop (nat lo) data)) = Some v"
    by (intro LittleEndian_Uint32_total) simp
  then show ?thesis
    using assms by (simp add: read_int32_def slice_def)
qed

lemma read_int32_SomeD:
  "read_int32 data lo = Some v \<Longrightarrow> 0 \<le> lo \<and> lo + 4 \<le> int (length data)"
  by (auto simp add: read_int32_def slice_def split: if_splits)

lemma LittleEndian_roundtrip:
  "LittleEndian_Uint32 (LittleEndian_PutUint32 v @ rest) = Some v"
proof -
  have "ucast (ucast v :: byte) OR push_bit 8 (ucast (ucast (drop_bit 8 v) :: byte))
        OR push_bit 16 (ucast (ucast (drop_bit 16 v) :: byte))
        OR push_bit 24 (ucast (ucast (drop_bit 24 v) :: byte)) = (v :: int32)"
  proof (rule bit_word_eqI)
    fix n :: nat
    assume "n < LENGTH(32)"
    then have n: "n < 32" by simp
    consider "n < 8" | "8 \<le> n" "n < 16" | "16 \<le> n" "n < 24" | "24 \<le> n" "n < 32"
      using n by linarith
    then show "bit (ucast (ucast v :: byte) OR push_bit 8 (ucast (ucast (drop_bit 8 v) :: byte))
        OR push_bit 16 (ucast (ucast (drop_bit 16 v) :: byte))
        OR push_bit 24 (ucast (ucast (drop_bit 24 v) :: byte)) :: int32) n = bit v n"
      by cases (auto simp add: bit_simps)
  qed
  then show ?thesis
    by (simp add: LittleEndian_PutUint32_def)
qed

lemma read_int32_PutUint32:
  assumes "int (length pre) = lo"
  shows "read_int32 (pre @ LittleEndian_PutUint32 v @ rest) lo = Some v"
proof -
  have len: "length (LittleEndian_PutUint32 v) = 4"
    by (simp add: LittleEndian_PutUint32_def)
  have "slice (pre @ LittleEndian_PutUint32 v @ rest) lo (lo + 4) = Some (LittleEndian_PutUint32 v)"
    using assms len by (auto simp add: slice_def)
  then show ?thesis
    using LittleEndian_roundtrip [of v "[]"] by (simp add: read_int32_def)
qed

subsection \<open>cleanString cuts at the first NUL byte\<close>

lemma decodeRune_width_pos: "xs \<noteq> [] \<Longrightarrow> 0 < snd (decodeRune xs)"
  by (cases xs) (auto simp add: Let_def split: list.splits)

lemma decodeRune_zero:
  assumes "decodeRune (b # bs) = (0, w)"
  shows "b = 0"
  using assms
  by (auto simp add: Let_def RuneError_def in_range_def unat_eq_0 split: list.splits if_splits)

lemma in_range_nonzero: "in_range c lo hi \<Longrightarrow> 0 < lo \<Longrightarrow> c \<noteq> 0"
  by (auto simp add: in_range_def)

lemma decodeRune_nonzero:
  assumes "decodeRune (b # bs) = (r, w)" and "r \<noteq> 0"
  shows "w \<le> length (b # bs) \<and> (\<forall>j<w. (b # bs) ! j \<noteq> 0)"
proof -
  define c0 where "c0 = unat b"
  have b0: "b \<noteq> 0" if "0 < c0" using that by (auto simp add: c0_def)
  consider (ascii) "c0 < 0x80"
    | (bad) "\<not> c0 < 0x80" "c0 < 0xC2 \<or> 0xF4 < c0"
    | (two) "0xC2 \<le> c0" "c0 < 0xE0"
    | (three) "0xE0 \<le> c0" "c0 < 0xF0"
    | (four) "0xF0 \<le> c0" "c0 \<le> 0xF4"
    by linarith
  then show ?thesis
  proof cases
    case ascii
    with assms have "r = c0" "w = 1" by (auto simp add: Let_def c0_def)
    with assms b0 show ?thesis by simp
  next
    case bad
    with assms have "w = 1" by (auto simp add: Let_def c0_def)
    moreover have "0 < c0" using bad by simp
    ultimately show ?thesis using b0 by simp
  next
    case two
    then have pos: "0 < c0" by simp
    from two have eq: "decodeRune (b # bs) =
        (case bs of
           s1 # _ \<Rightarrow> if in_range s1 0x80 0xBF then ((c0 - 0xC0) * 64 + (unat s1 - 0x80), 2)
                     else (RuneError, 1)
         | _ \<Rightarrow> (RuneError, 1))"
      unfolding c0_def by (simp add: Let_def)
    show ?thesis
    proof (cases bs)
      case Nil
      with eq assms have "w = 1" by simp
      with b0 pos show ?thesis by simp
    next
      case (Cons s1 t)
      show ?thesis
      proof (cases "in_range s1 0x80 0xBF")
        case True
        with eq Cons assms have "w = 2" by simp
        moreover have "s1 \<noteq> 0" using True by (rule in_range_nonzero) simp
        ultimately show ?thesis using b0 pos Cons by (simp add: nth_Cons less_Suc_eq split: nat.splits)
      next
        case False
        with eq Cons assms have "w = 1" by simp
        with b0 pos show ?thesis by simp
      qed
    qed
  next
    case three
    then have pos: "0 < c0" by simp
    define lo where "lo = (if c0 = 0xE0 then 0xA0 else (0x80 :: nat))"
    define hi where "hi = (if c0 = 0xED then 0x9F else (0xBF :: nat))"
    have lo: "0 < lo" by (simp add: lo_def)
    from three have eq: "decodeRune (b # bs) =
        (case bs of
           s1 # s2 # _ \<Rightarrow>
             if in_range s1 lo hi \<and> in_range s2 0x80 0xBF
             then ((c0 - 0xE0) * 4096 + (unat s1 - 0x80) * 64 + (unat s2 - 0x80), 3)
             else (RuneError, 1)
         | _ \<Rightarrow> (RuneError, 1))"
      unfolding c0_def lo_def hi_def by (simp add: Let_def)
    show ?thesis
    proof (cases "\<exists>s1 s2 t. bs = s1 # s2 # t \<and> in_range s1 lo hi \<and> in_range s2 0x80 0xBF")
      case True
      then obtain s1 s2 t where bs: "bs = s1 # s2 # t" and r1: "in_range s1 lo hi"
        and r2: "in_range s2 0x80 0xBF" by blast
      with eq assms have "w = 3" by simp
      moreover have "s1 \<noteq> 0" using r1 lo by (rule in_range_nonzero)
      moreover have "s2 \<noteq> 0" using r2 by (rule in_range_nonzero) simp
      ultimately show ?thesis using b0 pos bs
        by (simp add: nth_Cons less_Suc_eq split: nat.splits)
    next
      case False
      with eq assms have "w = 1" by (auto split: list.splits if_splits)
      with b0 pos show ?thesis by simp
    qed
  next
    case four
    then have pos: "0 < c0" by simp
    define lo where "lo = (if c0 = 0xF0 then 0x90 else (0x80 :: nat))"
    define hi where "hi = (if c0 = 0xF4 then 0x8F else (0xBF :: nat))"
    have lo: "0 < lo" by (simp add: lo_def)
    from four have eq: "decodeRune (b # bs) =
        (case bs of
           s1 # s2 # s3 # _ \<Rightarrow>
             if in_range s1 lo hi \<and> in_range s2 0x80 0xBF \<and> in_range s3 0x80 0xBF
             then ((c0 - 0xF0) * 262144 + (unat s1 - 0x80) * 4096 + (unat s2 - 0x80) * 64
                   + (unat s3 - 0x80), 4)
             else (RuneError, 1)
         | _ \<Rightarrow> (RuneError, 1))"
      unfolding c0_def lo_def hi_def by (simp add: Let_def)
    show ?thesis
    proof (cases "\<exists>s1 s2 s3 t. bs = s1 # s2 # s3 # t \<and> in_range s1 lo hi
                    \<and> in_range s2 0x80 0xBF \<and> in_range s3 0x80 0xBF")
      case True
      then obtain s1 s2 s3 t where bs: "bs = s1 # s2 # s3 # t" and r1: "in_range s1 lo hi"
        and r2: "in_range s2 0x80 0xBF" and r3: "in_range s3 0x80 0xBF" by blast
      with eq assms have "w = 4" by simp
      moreover have "s1 \<noteq> 0" using r1 lo by (rule in_range_nonzero)
      moreover have "s2 \<noteq> 0" using r2 by (rule in_range_nonzero) simp
      moreover have "s3 \<noteq> 0" using r3 by (rule in_range_nonzero) simp
      ultimately show ?thesis using b0 pos bs
        by (simp add: nth_Cons less_Suc_eq split: nat.splits)
    next
      case False
      with eq assms have "w = 1" by (auto split: list.splits if_splits)
      with b0 pos show ?thesis by simp
    qed
  qed
qed

termination cleanString_loop
proof (relation "measure (\<lambda>(s, i). length s - i)")
  show "wf (measure (\<lambda>(s :: gostring, i). length s - i))" by simp
next
  fix s :: gostring and i r w :: nat
  assume i: "i < length s" and rw: "(r, w) = decodeRune (drop i s)"
  from i have "0 < snd (decodeRune (drop i s))"
    by (intro decodeRune_width_pos) simp
  with rw have "0 < w" by (metis snd_conv)
  with i show "((s, i + w), s, i) \<in> measure (\<lambda>(s, i). length s - i)"
    by simp
qed

declare cleanString_loop.simps [simp del]

lemma takeWhile_nonzero_cut:
  assumes "i < length s" and "\<forall>j<i. s ! j \<noteq> (0 :: byte)" and "s ! i = 0"
  shows "takeWhile (\<lambda>b. b \<noteq> 0) s = take i s"
proof -
  have s: "s = take i s @ s ! i # drop (Suc i) s"
    using assms(1) by (simp add: id_take_nth_drop)
  have nz: "\<forall>x\<in>set (take i s). x \<noteq> 0"
    using assms(1,2) by (auto simp add: in_set_conv_nth)
  have "takeWhile (\<lambda>b. b \<noteq> 0) (take i s @ s ! i # drop (Suc i) s) = take i s"
    using nz assms(3) by (simp add: takeWhile_tail)
  with s show ?thesis by simp
qed

lemma cleanString_loop_inv:
  assumes "\<forall>j<i. s ! j \<noteq> 0" and "i \<le> length s"
  shows "cleanString_loop s i = takeWhile (\<lambda>b. b \<noteq> 0) s"
  using assms
proof (induction s i rule: cleanString_loop.induct)
  case (1 s i)
  show ?case
  proof (cases "i < length s")
    case False
    with "1.prems" have "\<forall>b\<in>set s. b \<noteq> 0"
      by (auto simp add: in_set_conv_nth)
    then have tw: "takeWhile (\<lambda>b. b \<noteq> 0) s = s" by simp
    show ?thesis using False by (subst cleanString_loop.simps) (simp add: tw)
  next
    case True
    obtain r w where rw: "decodeRune (drop i s) = (r, w)" by (cases "decodeRune (drop i s)")
    from True obtain b bs where d: "drop i s = b # bs"
      by (cases "drop i s") auto
    then have bi: "s ! i = b" using True by (metis nth_via_drop)
    show ?thesis
    proof (cases "r = 0")
      case r0: True
      with rw d have "b = 0" using decodeRune_zero by metis
      with bi have "s ! i = 0" by simp
      with True "1.prems" have "takeWhile (\<lambda>b. b \<noteq> 0) s = take i s"
        by (intro takeWhile_nonzero_cut) simp_all
      with True rw r0 show ?thesis
        by (subst cleanString_loop.simps) simp
    next
      case False
      from decodeRune_nonzero [of b bs r w] rw d False
      have w: "w \<le> length (drop i s)" and nz: "\<forall>j<w. drop i s ! j \<noteq> 0" by auto
      have "\<forall>j<i + w. s ! j \<noteq> 0"
      proof (intro allI impI)
        fix j assume j: "j < i + w"
        show "s ! j \<noteq> 0"
        proof (cases "j < i")
          case True with "1.prems" show ?thesis by simp
        next
          case nj: False
          then have "j - i < w" using j by arith
          with nz have "drop i s ! (j - i) \<noteq> 0" by simp
          moreover have "drop i s ! (j - i) = s ! j"
            using nj w j by simp
          ultimately show ?thesis by simp
        qed
      qed
      moreover have "i + w \<le> length s" using w True by simp
      ultimately have "cleanString_loop s (i + w) = takeWhile (\<lambda>b. b \<noteq> 0) s"
        using "1.IH" [OF True rw [symmetric] False] by simp
      with True rw False show ?thesis
        by (subst cleanString_loop.simps) simp
    qed
  qed
qed

lemma cleanString_takeWhile: "cleanString s = takeWhile (\<lambda>b. b \<noteq> 0) s"
  unfolding cleanString_def by (rule cleanString_loop_inv) simp_all

subsection \<open>The parameter loop\<close>

lemma sint_minus_12:
  assumes "12 \<le> sint (len :: int32)" and "sint len \<le> 65536"
  shows "sint (len - 12) = sint len - 12"
proof -
  have "sint (len - 12) = signed_take_bit 31 (sint len - sint (12 :: int32))"
    by (simp add: sint_word_ariths)
  also have "\<dots> = signed_take_bit 31 (sint len - 12)" by simp
  also have "\<dots> = sint len - 12"
    using assms by (intro signed_take_bit_int_eq_self) simp_all
  finally show ?thesis .
qed

lemma parseParameters_value_total:
  assumes "0 \<le> offset" and "12 \<le> sint len" and "sint len \<le> 65536"
    and "offset + sint len \<le> int (length data)"
  shows "\<exists>v. parseParameters_value data offset ty len = Some v"
proof -
  have s: "sint (len - 12) = sint len - 12"
    using assms(2,3) by (rule sint_minus_12)
  have sl: "\<exists>bs. slice data (offset + 12) (offset + 12 + sint (len - 12)) = Some bs"
    using assms by (simp add: s slice_def)
  have rd: "16 \<le> sint len \<Longrightarrow> \<exists>v. read_int32 data (offset + 12) = Some v"
    using assms by (intro read_int32_total) simp_all
  show ?thesis
    using sl rd by (auto simp add: parseParameters_value_def Let_def)
qed

lemma parseParameters_body_short:
  "int (length data) < offset + 12 \<Longrightarrow> parseParameters_body data offset = Some None"
  by (simp add: parseParameters_body_def)

lemma parseParameters_body_bad_length:
  assumes "offset + 12 \<le> int (length data)"
    and "read_int32 data offset = Some parameter"
    and "read_int32 data (offset + 4) = Some ty"
    and "read_int32 data (offset + 8) = Some len"
    and "sint len < 12 \<or> 65536 < sint len \<or> int (length data) < offset + sint len"
  shows "parseParameters_body data offset = Some None"
  using assms by (auto simp add: parseParameters_body_def)

lemma parseParameters_body_good:
  assumes "offset + 12 \<le> int (length data)"
    and "read_int32 data offset = Some parameter"
    and "read_int32 data (offset + 4) = Some ty"
    and "read_int32 data (offset + 8) = Some len"
    and "12 \<le> sint len" and "sint len \<le> 65536"
    and "offset + sint len \<le> int (length data)"
    and "parseParameters_value data offset ty len = Some v"
  shows "parseParameters_body data offset =
           Some (Some (\<lparr> Parameter = parameter, PCFParameter.Type = ty, Length = len, Value = v \<rparr>,
                       align4 (offset + sint len)))"
  using assms by (simp add: parseParameters_body_def align4_def Let_def)

lemma parseParameters_body_SomeD:
  assumes "parseParameters_body data offset = Some (Some (param, offset'))"
  shows "0 \<le> offset" and "offset + 12 \<le> int (length data)"
    and "read_int32 data offset = Some (Parameter param)"
    and "read_int32 data (offset + 4) = Some (PCFParameter.Type param)"
    and "read_int32 data (offset + 8) = Some (Length param)"
    and "12 \<le> sint (Length param)" and "sint (Length param) \<le> 65536"
    and "offset + sint (Length param) \<le> int (length data)"
    and "parseParameters_value data offset (PCFParameter.Type param) (Length param) = Some (Value param)"
    and "offset' = align4 (offset + sint (Length param))"
proof -
  from assms have le: "offset + 12 \<le> int (length data)"
    by (auto simp add: parseParameters_body_def split: if_splits)
  from assms le obtain parameter where p: "read_int32 data offset = Some parameter"
    by (cases "read_int32 data offset") (auto simp add: parseParameters_body_def)
  from assms le p obtain ty where t: "read_int32 data (offset + 4) = Some ty"
    by (cases "read_int32 data (offset + 4)") (auto simp add: parseParameters_body_def)
  from assms le p t obtain len where l: "read_int32 data (offset + 8) = Some len"
    by (cases "read_int32 data (offset + 8)") (auto simp add: parseParameters_body_def)
  from assms le p t l have ok: "12 \<le> sint len" "sint len \<le> 65536"
      "offset + sint len \<le> int (length data)"
    by (auto simp add: parseParameters_body_def split: if_splits)
  from assms le p t l ok obtain v where v: "parseParameters_value data offset ty len = Some v"
    by (cases "parseParameters_value data offset ty len") (auto simp add: parseParameters_body_def)
  from parseParameters_body_good [OF le p t l ok v] assms
  have param: "param = \<lparr> Parameter = parameter, PCFParameter.Type = ty, Length = len, Value = v \<rparr>"
    and off: "offset' = align4 (offset + sint len)" by simp_all
  show "0 \<le> offset" using p read_int32_SomeD by blast
  show "offset + 12 \<le> int (length data)" by (rule le)
  show "read_int32 data offset = Some (Parameter param)" by (simp add: param p)
  show "read_int32 data (offset + 4) = Some (PCFParameter.Type param)" by (simp add: param t)
  show "read_int32 data (offset + 8) = Some (Length param)" by (simp add: param l)
  show "12 \<le> sint (Length param)" by (simp add: param ok)
  show "sint (Length param) \<le> 65536" by (simp add: param ok)
  show "offset + sint (Length param) \<le> int (length data)" by (simp add: param ok)
  show "parseParameters_value data offset (PCFParameter.Type param) (Length param) = Some (Value param)"
    by (simp add: param v)
  show "offset' = align4 (offset + sint (Length param))" by (simp add: param off)
qed

lemma round_up4_alt: "round_up4 n = n + 3 - (n + 3) mod 4"
  unfolding round_up4_def by (simp add: minus_mod_eq_div_mult)

lemma round_up4_ge: "n \<le> round_up4 n"
proof -
  have "(n + 3) mod 4 < 4" by (rule pos_mod_bound) simp
  then show ?thesis unfolding round_up4_alt by linarith
qed

lemma round_up4_mod: "round_up4 n mod 4 = 0"
  unfolding round_up4_def by simp

lemma mod4_cases: "(n :: int) mod 4 = 0 \<or> n mod 4 = 1 \<or> n mod 4 = 2 \<or> n mod 4 = 3"
proof -
  have "0 \<le> n mod 4" and "n mod 4 < 4" by simp_all
  then show ?thesis by linarith
qed

lemma align4_eq_round_up4: "align4 n = round_up4 n"
proof -
  have m: "(n + 3) mod 4 = (n mod 4 + 3) mod 4" by (simp add: mod_add_left_eq)
  from mod4_cases [of n] show ?thesis
    unfolding round_up4_alt align4_def m by (elim disjE) simp_all
qed

lemma round_up4_shift:
  assumes "offset mod 4 = 0"
  shows "round_up4 (offset + n) = offset + round_up4 n"
proof -
  from assms obtain k where k: "offset = 4 * k" by (metis mod_eq_0_iff_dvd dvd_def)
  have "(4 * k + n + 3) div 4 = k + (n + 3) div 4" by simp
  then show ?thesis unfolding round_up4_def k by (simp add: algebra_simps)
qed

lemma align4_round_up4:
  assumes "offset mod 4 = 0"
  shows "align4 (offset + n) = offset + round_up4 n"
  using assms by (simp add: align4_eq_round_up4 round_up4_shift)

lemma align4_ge: "n \<le> align4 n"
  by (simp add: align4_eq_round_up4 round_up4_ge)

lemma align4_mod: "align4 n mod 4 = 0"
  by (simp add: align4_eq_round_up4 round_up4_mod)

lemma parseParameters_body_progress:
  assumes "parseParameters_body data offset = Some (Some (param, offset'))"
  shows "offset + 12 \<le> offset'"
  using parseParameters_body_SomeD(6,10) [OF assms] align4_ge [of "offset + sint (Length param)"]
  by simp

lemma parseParameters_body_no_panic:
  assumes "0 \<le> offset"
  shows "parseParameters_body data offset \<noteq> None"
proof (cases "offset + 12 \<le> int (length data)")
  case False
  then show ?thesis by (simp add: parseParameters_body_def)
next
  case True
  obtain parameter where p: "read_int32 data offset = Some parameter"
    using read_int32_total [of offset data] assms True by auto
  obtain ty where t: "read_int32 data (offset + 4) = Some ty"
    using read_int32_total [of "offset + 4" data] assms True by auto
  obtain len where l: "read_int32 data (offset + 8) = Some len"
    using read_int32_total [of "offset + 8" data] assms True by auto
  show ?thesis
  proof (cases "sint len < 12 \<or> 65536 < sint len \<or> int (length data) < offset + sint len")
    case True
    with parseParameters_body_bad_length [OF \<open>offset + 12 \<le> int (length data)\<close> p t l]
    show ?thesis by simp
  next
    case False
    then have ok: "12 \<le> sint len" "sint len \<le> 65536" "offset + sint len \<le> int (length data)"
      by auto
    obtain v where v: "parseParameters_value data offset ty len = Some v"
      using parseParameters_value_total [OF assms ok] by blast
    from parseParameters_body_good [OF True p t l ok v] show ?thesis by simp
  qed
qed

termination parseParameters_loop
proof (relation "measure (\<lambda>(data, offset, parameters). nat (int (length data) - offset))")
  show "wf (measure (\<lambda>(data :: byte list, offset, parameters :: PCFParameter list).
               nat (int (length data) - offset)))"
    by simp
next
  fix data :: "byte list" and offset offset' :: int and parameters :: "PCFParameter list"
    and x2 :: "(PCFParameter \<times> int) option" and x2a :: "PCFParameter \<times> int" and param :: PCFParameter
  assume lt: "offset < int (length data)"
    and "parseParameters_body data offset = Some x2" and "x2 = Some x2a" and "(param, offset') = x2a"
  then have "parseParameters_body data offset = Some (Some (param, offset'))" by simp
  then have "offset + 12 \<le> offset'" by (rule parseParameters_body_progress)
  with lt show "((data, offset', parameters @ [param]), data, offset, parameters)
        \<in> measure (\<lambda>(data, offset, parameters). nat (int (length data) - offset))"
    by simp
qed

declare parseParameters_loop.simps [simp del]

lemma reaches_inv:
  assumes "reaches data offset parameters"
  shows "0 \<le> offset \<and> offset mod 4 = 0"
  using assms
proof (induction rule: reaches.induct)
  case start
  show ?case by simp
next
  case (step offset parameters param offset')
  from parseParameters_body_SomeD(10) [OF step.hyps(3)] have "offset' mod 4 = 0"
    by (simp add: align4_mod)
  moreover from parseParameters_body_progress [OF step.hyps(3)] step.IH have "0 \<le> offset'"
    by simp
  ultimately show ?case by simp
qed

lemma reaches_loop:
  assumes "reaches data offset parameters"
  shows "parseParameters_loop data 0 [] = parseParameters_loop data offset parameters"
  using assms
proof (induction rule: reaches.induct)
  case start
  show ?case by simp
next
  case (step offset parameters param offset')
  have "parseParameters_loop data offset parameters
          = parseParameters_loop data offset' (parameters @ [param])"
    using step.hyps(2,3) by (subst parseParameters_loop.simps) simp
  with step.IH show ?case by simp
qed

lemma parseParameters_loop_prefix:
  assumes "0 \<le> offset"
  shows "\<exists>rest. parseParameters_loop data offset parameters = Some (parameters @ rest)"
  using assms
proof (induction data offset parameters rule: parseParameters_loop.induct)
  case (1 data offset parameters)
  show ?case
  proof (cases "offset < int (length data)")
    case False
    then show ?thesis by (subst parseParameters_loop.simps) simp
  next
    case True
    from parseParameters_body_no_panic [OF "1.prems"]
    obtain r where r: "parseParameters_body data offset = Some r" by blast
    show ?thesis
    proof (cases r)
      case None
      with True r show ?thesis by (subst parseParameters_loop.simps) simp
    next
      case (Some pr)
      obtain param offset' where pr: "pr = (param, offset')" by (cases pr)
      from r Some pr have b: "parseParameters_body data offset = Some (Some (param, offset'))"
        by simp
      from parseParameters_body_progress [OF b] "1.prems" have "0 \<le> offset'" by simp
      with "1.IH" [OF True r Some pr [symmetric]]
      obtain rest where "parseParameters_loop data offset' (parameters @ [param])
                           = Some ((parameters @ [param]) @ rest)"
        by blast
      with True b show ?thesis by (subst parseParameters_loop.simps) simp
    qed
  qed
qed

subsection \<open>Reaching a cursor, stopping and going on\<close>

lemma parseParameters_total:
  "\<exists>parameters. parseParameters data count = Some (parameters, None)"
  using parseParameters_loop_prefix [of 0 data "[]"] by (auto simp add: parseParameters_def)

lemma dom_convertParameters_foldl:
  "dom (foldl (\<lambda>result param. result(param_key (Parameter param) \<mapsto> Value param)) m parameters)
     = dom m \<union> (\<lambda>param. param_key (Parameter param)) ` set parameters"
  by (induction parameters arbitrary: m) auto

lemma dom_convertParameters:
  "dom (convertParameters parameters) = (\<lambda>param. param_key (Parameter param)) ` set parameters"
  by (simp add: convertParameters_def dom_convertParameters_foldl)

lemma reaches_stop:
  assumes "reaches data offset parameters" and "offset < int (length data)"
    and "parseParameters_body data offset = Some None"
  shows "parseParameters data count = Some (parameters, None)"
proof -
  have "parseParameters_loop data offset parameters = Some parameters"
    using assms(2,3) by (subst parseParameters_loop.simps) simp
  with reaches_loop [OF assms(1)] show ?thesis by (simp add: parseParameters_def)
qed

lemma reaches_continue:
  assumes "reaches data offset parameters" and "offset < int (length data)"
    and "parseParameters_body data offset = Some (Some (param, offset'))"
  shows "\<exists>rest. parseParameters data count = Some (parameters @ param # rest, None)"
proof -
  have r: "reaches data offset' (parameters @ [param])"
    using assms by (rule reaches.step)
  then have "0 \<le> offset'" using reaches_inv by blast
  then obtain rest where "parseParameters_loop data offset' (parameters @ [param])
      = Some ((parameters @ [param]) @ rest)"
    using parseParameters_loop_prefix by blast
  with reaches_loop [OF r] show ?thesis by (simp add: parseParameters_def)
qed

text \<open>
  Every run ends in a reached state: the list that \<open>parseParameters\<close> returns is the list
  accumulated at a cursor where the loop test fails or the body breaks.
\<close>

lemma reaches_final_from:
  assumes "reaches data offset parameters"
  shows "\<exists>offset' parameters'.
           reaches data offset' parameters'
           \<and> parseParameters_loop data offset parameters = Some parameters'
           \<and> (int (length data) \<le> offset' \<or> parseParameters_body data offset' = Some None)"
  using assms
proof (induction data offset parameters rule: parseParameters_loop.induct)
  case (1 data offset parameters)
  show ?case
  proof (cases "offset < int (length data)")
    case False
    then have "parseParameters_loop data offset parameters = Some parameters"
      by (subst parseParameters_loop.simps) simp
    with False "1.prems" show ?thesis by force
  next
    case True
    from reaches_inv [OF "1.prems"] have "0 \<le> offset" by simp
    from parseParameters_body_no_panic [OF this]
    obtain r where r: "parseParameters_body data offset = Some r" by blast
    show ?thesis
    proof (cases r)
      case None
      with True r have "parseParameters_loop data offset parameters = Some parameters"
        by (subst parseParameters_loop.simps) simp
      with None r "1.prems" show ?thesis by blast
    next
      case (Some pr)
      obtain param offset' where pr: "pr = (param, offset')" by (cases pr)
      from r Some pr have b: "parseParameters_body data offset = Some (Some (param, offset'))"
        by simp
      have "reaches data offset' (parameters @ [param])"
        using "1.prems" True b by (rule reaches.step)
      from "1.IH" [OF True r Some pr [symmetric] this]
      obtain offset'' parameters' where "reaches data offset'' parameters'"
        and "parseParameters_loop data offset' (parameters @ [param]) = Some parameters'"
        and "int (length data) \<le> offset'' \<or> parseParameters_body data offset'' = Some None"
        by blast
      moreover have "parseParameters_loop data offset parameters
          = parseParameters_loop data offset' (parameters @ [param])"
        using True b by (subst parseParameters_loop.simps) simp
      ultimately show ?thesis by auto
    qed
  qed
qed

lemma parseParameters_reaches_final:
  "\<exists>offset parameters.
     reaches data offset parameters
     \<and> parseParameters data count = Some (parameters, None)
     \<and> (int (length data) \<le> offset \<or> parseParameters_body data offset = Some None)"
  using reaches_final_from [OF reaches.start, of data] by (auto simp add: parseParameters_def)

subsection \<open>The example stream, decoded\<close>

lemma example_length: "length example_params = 60"
  by (simp add: example_params_def)

lemma example_read_0: "read_int32 example_params 0 = Some 65"
  by (simp add: example_params_def read_int32_def slice_def)

lemma example_read_4: "read_int32 example_params 4 = Some 3"
  by (simp add: example_params_def read_int32_def slice_def)

lemma example_read_8: "read_int32 example_params 8 = Some 16"
  by (simp add: example_params_def read_int32_def slice_def)

lemma example_read_12: "read_int32 example_params 12 = Some 2"
  by (simp add: example_params_def read_int32_def slice_def)

lemma example_read_16: "read_int32 example_params 16 = Some 7"
  by (simp add: example_params_def read_int32_def slice_def)

lemma example_read_20: "read_int32 example_params 20 = Some 5"
  by (simp add: example_params_def read_int32_def slice_def)

lemma example_read_24: "read_int32 example_params 24 = Some 13"
  by (simp add: example_params_def read_int32_def slice_def)

lemma example_read_32: "read_int32 example_params 32 = Some 2016"
  by (simp add: example_params_def read_int32_def slice_def)

lemma example_read_36: "read_int32 example_params 36 = Some 4"
  by (simp add: example_params_def read_int32_def slice_def)

lemma example_read_40: "read_int32 example_params 40 = Some 16"
  by (simp add: example_params_def read_int32_def slice_def)

lemma example_read_56: "read_int32 example_params 56 = Some 5"
  by (simp add: example_params_def read_int32_def slice_def)

lemma example_payload: "slice example_params 44 48 = Some [0x41, 0x20, 0, 0x42]"
  by (simp add: example_params_def slice_def)

lemma example_body_0: "parseParameters_body example_params 0 = Some (Some (example_p1, 16))"
proof -
  have v: "parseParameters_value example_params 0 3 16 = Some (VInt32 2)"
    using example_read_12 by (simp add: parseParameters_value_def MQCFT_INTEGER_def)
  show ?thesis
    using parseParameters_body_good [of 0 example_params 65 3 16 "VInt32 2"]
      example_read_0 example_read_4 example_read_8 v
    by (simp add: example_length example_p1_def align4_def)
qed

lemma example_body_16: "parseParameters_body example_params 16 = Some (Some (example_p2, 32))"
proof -
  have v: "parseParameters_value example_params 16 5 13 = Some VNil"
    by (simp add: parseParameters_value_def MQCFT_INTEGER_def MQCFT_STRING_def MQCFT_BYTE_STRING_def)
  show ?thesis
    using parseParameters_body_good [of 16 example_params 7 5 13 VNil]
      example_read_16 example_read_20 example_read_24 v
    by (simp add: example_length example_p2_def align4_def)
qed

lemma example_body_32: "parseParameters_body example_params 32 = Some (Some (example_p3, 48))"
proof -
  have "parseParameters_value example_params 32 4 16 = Some (VString (cleanString [0x41, 0x20, 0, 0x42]))"
    using example_payload
    by (simp add: parseParameters_value_def MQCFT_INTEGER_def MQCFT_STRING_def)
  then have v: "parseParameters_value example_params 32 4 16 = Some (VString [0x41, 0x20])"
    by (simp add: cleanString_takeWhile)
  show ?thesis
    using parseParameters_body_good [of 32 example_params 2016 4 16 "VString [0x41, 0x20]"]
      example_read_32 example_read_36 example_read_40 v
    by (simp add: example_length example_p3_def align4_def)
qed

lemma example_reaches_16: "reaches example_params 16 [example_p1]"
  using reaches.step [OF reaches.start, of example_params example_p1 16] example_body_0
  by (simp add: example_length)

lemma example_reaches_32: "reaches example_params 32 [example_p1, example_p2]"
  using reaches.step [OF example_reaches_16, of example_p2 32] example_body_16
  by (simp add: example_length)

lemma example_reaches_48: "reaches example_params 48 [example_p1, example_p2, example_p3]"
  using reaches.step [OF example_reaches_32, of example_p3 48] example_body_32
  by (simp add: example_length)

subsection \<open>parseQueueStats as a fold\<close>

lemma int32_values_snoc:
  "int32_values tag (parameters @ [param]) =
     int32_values tag parameters @
       (case Value param of VInt32 val \<Rightarrow> if Parameter param = tag then [val] else [] | _ \<Rightarrow> [])"
  by (simp add: int32_values_def)

lemma last_int32_Nil: "last_int32 tag [] = 0"
  by (simp add: last_int32_def int32_values_def)

lemma last_int32_snoc:
  "last_int32 tag (parameters @ [param]) =
     (case Value param of
        VInt32 val \<Rightarrow> if Parameter param = tag then val else last_int32 tag parameters
      | _ \<Rightarrow> last_int32 tag parameters)"
  by (simp add: last_int32_def int32_values_snoc split: pcf_value.splits)

lemma parseQueueStats_snoc:
  "parseQueueStats (parameters @ [param]) = parseQueueStats_body (parseQueueStats parameters) param"
  by (simp add: parseQueueStats_def)

lemma parseQueueStats_counts:
  "InputCount (parseQueueStats parameters) = last_int32 MQIA_OPEN_INPUT_COUNT parameters
   \<and> OutputCount (parseQueueStats parameters) = last_int32 MQIA_OPEN_OUTPUT_COUNT parameters
   \<and> HasReaders (parseQueueStats parameters) = (0 < sint (InputCount (parseQueueStats parameters)))
   \<and> HasWriters (parseQueueStats parameters) = (0 < sint (OutputCount (parseQueueStats parameters)))"
proof (induction parameters rule: rev_induct)
  case Nil
  show ?case by (simp add: parseQueueStats_def QueueStatistics_zero_def last_int32_Nil)
next
  case (snoc param parameters)
  have tags: "MQIA_CURRENT_Q_DEPTH \<noteq> MQIA_OPEN_INPUT_COUNT" "MQIA_HIGH_Q_DEPTH \<noteq> MQIA_OPEN_INPUT_COUNT"
    "MQIA_CURRENT_Q_DEPTH \<noteq> MQIA_OPEN_OUTPUT_COUNT" "MQIA_HIGH_Q_DEPTH \<noteq> MQIA_OPEN_OUTPUT_COUNT"
    "MQIA_OPEN_INPUT_COUNT \<noteq> MQIA_OPEN_OUTPUT_COUNT"
    "MQIA_MSG_ENQ_COUNT \<noteq> MQIA_OPEN_INPUT_COUNT" "MQIA_MSG_ENQ_COUNT \<noteq> MQIA_OPEN_OUTPUT_COUNT"
    "MQIA_MSG_DEQ_COUNT \<noteq> MQIA_OPEN_INPUT_COUNT" "MQIA_MSG_DEQ_COUNT \<noteq> MQIA_OPEN_OUTPUT_COUNT"
    by (simp_all add: MQIA_CURRENT_Q_DEPTH_def MQIA_HIGH_Q_DEPTH_def MQIA_OPEN_INPUT_COUNT_def
          MQIA_OPEN_OUTPUT_COUNT_def MQIA_MSG_ENQ_COUNT_def MQIA_MSG_DEQ_COUNT_def)
  show ?case
  proof (cases "Value param")
    case (VInt32 val)
    with snoc tags show ?thesis
      by (auto simp add: parseQueueStats_snoc parseQueueStats_body_def last_int32_snoc)
  next
    case VNil
    with snoc show ?thesis
      by (simp add: parseQueueStats_snoc parseQueueStats_body_def last_int32_snoc)
  next
    case (VString str)
    with snoc show ?thesis
      by (simp add: parseQueueStats_snoc parseQueueStats_body_def last_int32_snoc)
  next
    case (VBytes bs)
    with snoc show ?thesis
      by (simp add: parseQueueStats_snoc parseQueueStats_body_def last_int32_snoc)
  qed
qed

lemma example_counts_last:
  "last_int32 MQIA_OPEN_INPUT_COUNT example_counts = 0"
  "last_int32 MQIA_OPEN_OUTPUT_COUNT example_counts = 0"
  by (simp_all add: example_counts_def last_int32_def int32_values_def
        MQIA_OPEN_INPUT_COUNT_def MQIA_OPEN_OUTPUT_COUNT_def)

subsection \<open>ParseMessage on short and on long buffers\<close>

lemma parseHeader_total:
  assumes "36 \<le> length data"
  shows "\<exists>h. parseHeader data = Some (Some h, None) \<and> read_int32 data 12 = Some (Command h)"
proof -
  have r: "\<exists>v. read_int32 data lo = Some v" if "0 \<le> lo" "lo \<le> 32" for lo
    using that assms by (intro read_int32_total) simp_all
  obtain v0 where v0: "read_int32 data 0 = Some v0" using r [of 0] by auto
  obtain v4 where v4: "read_int32 data 4 = Some v4" using r [of 4] by auto
  obtain v8 where v8: "read_int32 data 8 = Some v8" using r [of 8] by auto
  obtain v12 where v12: "read_int32 data 12 = Some v12" using r [of 12] by auto
  obtain v16 where v16: "read_int32 data 16 = Some v16" using r [of 16] by auto
  obtain v20 where v20: "read_int32 data 20 = Some v20" using r [of 20] by auto
  obtain v24 where v24: "read_int32 data 24 = Some v24" using r [of 24] by auto
  obtain v28 where v28: "read_int32 data 28 = Some v28" using r [of 28] by auto
  obtain v32 where v32: "read_int32 data 32 = Some v32" using r [of 32] by auto
  show ?thesis
    using assms by (simp add: parseHeader_def v0 v4 v8 v12 v16 v20 v24 v28 v32)
qed

lemma slice_from_36:
  "36 \<le> length data \<Longrightarrow> slice_from data 36 = Some (drop 36 data)"
  by (simp add: slice_from_def slice_def)

lemma parseStatistics_error_nil: "snd (parseStatistics env header parameters) = None"
  by (simp add: parseStatistics_def Let_def)

lemma parseAccounting_error_nil: "snd (parseAccounting env header parameters) = None"
  by (simp add: parseAccounting_def Let_def)

lemma ParseMessage_long:
  assumes "36 \<le> length data"
    and "parseHeader data = Some (Some h, None)"
    and "parseParameters (drop 36 data) (ParameterCount h) = Some (parameters, None)"
  shows "ParseMessage env data msgType =
           (if is_statistics_command (Command h)
            then Some (Some (StatisticsDataPtr (fst (parseStatistics env h parameters))), None)
            else if is_accounting_command (Command h)
            then Some (Some (AccountingDataPtr (fst (parseAccounting env h parameters))), None)
            else Some (Some (StatisticsDataPtr
                    \<lparr> StatisticsData.Type = msgType, StatisticsData.QueueManager = [],
                      StatisticsData.Timestamp = time_Now env,
                      StatisticsData.Parameters = convertParameters parameters,
                      QueueStats = None, ChannelStats = None, MQIStats = None \<rparr>), None))"
proof -
  obtain st where st: "parseStatistics env h parameters = (st, None)"
    using parseStatistics_error_nil [of env h parameters] by (metis prod.collapse)
  obtain ac where ac: "parseAccounting env h parameters = (ac, None)"
    using parseAccounting_error_nil [of env h parameters] by (metis prod.collapse)
  show ?thesis
    using assms(1)
    by (simp add: ParseMessage_def assms(2,3) slice_from_36 st ac
          is_statistics_command_def is_accounting_command_def)
qed

lemma ParseMessage_short:
  "length data < 36 \<Longrightarrow>
   ParseMessage env data msgType
     = Some (None, Some (Errorf ''message too short to be a valid PCF message''))"
  by (simp add: ParseMessage_def)

lemma ParseMessage_long_ok:
  assumes "36 \<le> length data"
  shows "\<exists>record. ParseMessage env data msgType = Some (Some record, None)"
proof -
  from parseHeader_total [OF assms] obtain h where h: "parseHeader data = Some (Some h, None)"
    by blast
  from parseParameters_total obtain parameters
    where p: "parseParameters (drop 36 data) (ParameterCount h) = Some (parameters, None)"
    by blast
  show ?thesis
    unfolding ParseMessage_long [OF assms h p] by simp
qed

lemma example_unknown_length: "length example_unknown_message = 36"
  by (simp add: example_unknown_message_def)

lemma example_unknown_command: "read_int32 example_unknown_message 12 = Some 0x99"
  by (simp add: example_unknown_message_def read_int32_def slice_def)

lemma parseParameters_Nil: "parseParameters [] count = Some ([], None)"
  by (simp add: parseParameters_def parseParameters_loop.simps [of "[]" 0])

subsection \<open>Payloads\<close>

lemma slice_length:
  "slice s lo hi = Some xs \<Longrightarrow> int (length xs) = hi - lo"
  by (auto simp add: slice_def split: if_splits)

lemma parseParameters_value_string:
  assumes "12 \<le> sint len" and "sint len \<le> 65536"
    and "slice data (offset + 12) (offset + sint len) = Some payload"
  shows "parseParameters_value data offset MQCFT_STRING len
           = Some (if payload = [] then VNil else VString (takeWhile (\<lambda>b. b \<noteq> 0) payload))"
proof (cases "12 < sint len")
  case True
  have s: "sint (len - 12) = sint len - 12"
    using assms(1,2) by (rule sint_minus_12)
  from slice_length [OF assms(3)] True have "payload \<noteq> []" by auto
  moreover have "parseParameters_value data offset MQCFT_STRING len
      = Some (VString (cleanString payload))"
    using True assms(3) by (simp add: parseParameters_value_def MQCFT_STRING_def MQCFT_INTEGER_def s)
  ultimately show ?thesis by (simp add: cleanString_takeWhile)
next
  case False
  with assms(1) have l: "sint len = 12" by simp
  from slice_length [OF assms(3)] l have "payload = []" by simp
  moreover have "parseParameters_value data offset MQCFT_STRING len = Some VNil"
    using False by (simp add: parseParameters_value_def MQCFT_STRING_def MQCFT_INTEGER_def)
  ultimately show ?thesis by simp
qed

lemma example_empty_string_body:
  "parseParameters_body example_empty_string 0
     = Some (Some (\<lparr> Parameter = 2016, PCFParameter.Type = MQCFT_STRING, Length = 12,
                      Value = VNil \<rparr>, 12))"
proof -
  have r0: "read_int32 example_empty_string 0 = Some 2016"
    by (simp add: example_empty_string_def read_int32_def slice_def)
  have r4: "read_int32 example_empty_string (0 + 4) = Some MQCFT_STRING"
    by (simp add: example_empty_string_def read_int32_def slice_def MQCFT_STRING_def)
  have r8: "read_int32 example_empty_string (0 + 8) = Some 12"
    by (simp add: example_empty_string_def read_int32_def slice_def)
  have v: "parseParameters_value example_empty_string 0 MQCFT_STRING 12 = Some VNil"
    by (simp add: parseParameters_value_def MQCFT_STRING_def MQCFT_INTEGER_def)
  show ?thesis
    using parseParameters_body_good [of 0 example_empty_string 2016 MQCFT_STRING 12 VNil] r0 r4 r8 v
    by (simp add: example_empty_string_def align4_def)
qed

subsection \<open>C1\<close>

text \<open>
  C1.  Readers and writers.  For every parameter list, the record built by
  \<open>parseQueueStats\<close> has \<open>HasReaders\<close> exactly when \<open>InputCount\<close> is above 0 and
  \<open>HasWriters\<close> exactly when \<open>OutputCount\<close> is above 0 (as signed 32-bit numbers), where
  \<open>InputCount\<close> and \<open>OutputCount\<close> are the last integer values that the list carries for
  the open-input-count and open-output-count tags (0 when there is none).  In particular
  both flags are false when both counts are 0.
\<close>

theorem parseQueueStats_readers_writers:
  "HasReaders (parseQueueStats parameters) = (0 < sint (InputCount (parseQueueStats parameters)))
   \<and> HasWriters (parseQueueStats parameters) = (0 < sint (OutputCount (parseQueueStats parameters)))
   \<and> InputCount (parseQueueStats parameters) = last_int32 MQIA_OPEN_INPUT_COUNT parameters
   \<and> OutputCount (parseQueueStats parameters) = last_int32 MQIA_OPEN_OUTPUT_COUNT parameters
   \<and> (InputCount (parseQueueStats parameters) = 0 \<and> OutputCount (parseQueueStats parameters) = 0
        \<longrightarrow> \<not> HasReaders (parseQueueStats parameters) \<and> \<not> HasWriters (parseQueueStats parameters))"
  using parseQueueStats_counts [of parameters] by auto

theorem parseQueueStats_readers_writers_witness:
  "InputCount (parseQueueStats example_counts) = 0 \<and> OutputCount (parseQueueStats example_counts) = 0
   \<and> \<not> HasReaders (parseQueueStats example_counts) \<and> \<not> HasWriters (parseQueueStats example_counts)"
  using parseQueueStats_readers_writers [of example_counts] example_counts_last by simp

subsection \<open>C2\<close>

text \<open>
  C2.  \<open>ParseMessage\<close> returns an error exactly when the buffer has fewer than 36 bytes
  (and then the \<open>nil\<close> record with it).  For every buffer of at least 36 bytes, every
  \<open>msgType\<close> and every clock, it returns a record that is not \<open>nil\<close> and a \<open>nil\<close> error,
  without panic, whatever the command code and the parameter bytes are.
\<close>

theorem ParseMessage_error_iff_short:
  "(length data < 36 \<longrightarrow>
      ParseMessage env data msgType
        = Some (None, Some (Errorf ''message too short to be a valid PCF message'')))
   \<and> (36 \<le> length data \<longrightarrow>
        (\<exists>record. ParseMessage env data msgType = Some (Some record, None)))
   \<and> ((\<exists>record e. ParseMessage env data msgType = Some (record, Some e)) \<longleftrightarrow> length data < 36)"
proof (cases "length data < 36")
  case True
  with ParseMessage_short [of data env msgType] show ?thesis by simp
next
  case False
  then have "36 \<le> length data" by simp
  from ParseMessage_long_ok [OF this, of env msgType] False show ?thesis by auto
qed

theorem ParseMessage_error_iff_short_witness:
  "length ([] :: byte list) < 36
   \<and> ParseMessage example_env [] (go_str ''statistics'')
        = Some (None, Some (Errorf ''message too short to be a valid PCF message''))
   \<and> 36 \<le> length example_unknown_message
   \<and> (\<exists>record. ParseMessage example_env example_unknown_message (go_str ''statistics'')
                  = Some (Some record, None))"
  using ParseMessage_error_iff_short [of "[]" example_env "go_str ''statistics''"]
    ParseMessage_error_iff_short [of example_unknown_message example_env "go_str ''statistics''"]
  by (simp add: example_unknown_length)

subsection \<open>C3\<close>

text \<open>
  C3.  Soft truncation.  When a run of \<open>parseParameters\<close> arrives at a cursor where at least
  12 bytes remain and the parameter there declares a length below 12, above 65536, or one
  that would read past the end of the buffer, the function returns exactly the parameters
  decoded before that cursor, with a \<open>nil\<close> error (and without panic).  The declared length
  is a signed 32-bit number, so a length with the top bit set counts as below 12.
\<close>

theorem parseParameters_soft_truncation:
  assumes "reaches data offset parameters"
    and "offset + 12 \<le> int (length data)"
    and "read_int32 data (offset + 8) = Some len"
    and "sint len < 12 \<or> 65536 < sint len \<or> int (length data) < offset + sint len"
  shows "parseParameters data count = Some (parameters, None)"
proof -
  from reaches_inv [OF assms(1)] have pos: "0 \<le> offset" by simp
  obtain parameter where p: "read_int32 data offset = Some parameter"
    using read_int32_total [of offset data] pos assms(2) by auto
  obtain ty where t: "read_int32 data (offset + 4) = Some ty"
    using read_int32_total [of "offset + 4" data] pos assms(2) by auto
  have "parseParameters_body data offset = Some None"
    using assms(2) p t assms(3,4) by (rule parseParameters_body_bad_length)
  moreover have "offset < int (length data)" using assms(2) by simp
  ultimately show ?thesis using assms(1) reaches_stop by blast
qed

theorem parseParameters_soft_truncation_witness:
  "reaches example_params 48 [example_p1, example_p2, example_p3]
   \<and> 48 + 12 \<le> int (length example_params)
   \<and> read_int32 example_params (48 + 8) = Some 5
   \<and> (sint (5 :: int32) < 12 \<or> 65536 < sint (5 :: int32)
        \<or> int (length example_params) < 48 + sint (5 :: int32))
   \<and> parseParameters example_params 3 = Some ([example_p1, example_p2, example_p3], None)"
proof -
  have h2: "48 + 12 \<le> int (length example_params)" by (simp add: example_length)
  have h3: "read_int32 example_params (48 + 8) = Some 5" using example_read_56 by simp
  have h4: "sint (5 :: int32) < 12 \<or> 65536 < sint (5 :: int32)
        \<or> int (length example_params) < 48 + sint (5 :: int32)" by simp
  from parseParameters_soft_truncation [OF example_reaches_48 h2 h3 h4, of 3]
  show ?thesis using example_reaches_48 h2 h3 h4 by blast
qed

subsection \<open>C4\<close>

text \<open>
  C4.  Cursor advance.  When a run of \<open>parseParameters\<close> arrives at a cursor where the
  parameter declares a length \<open>L\<close> with \<open>12 \<le> L \<le> 65536\<close> that fits the buffer, the
  parameter is decoded and the next cursor is the cursor plus \<open>L\<close> rounded up to the next
  multiple of 4: the loop goes on from that cursor with the parameter appended, and
  \<open>parseParameters\<close> returns the parameters decoded so far, then this one, then those
  decoded from the next cursor on.  The cursor is a multiple of 4 before and after, and
  the next cursor is not before the end \<open>offset + L\<close> of the parameter's bytes, so that the
  bytes of two consecutive parameters do not overlap.
\<close>

theorem parseParameters_cursor_advance:
  assumes "reaches data offset parameters"
    and "offset + 12 \<le> int (length data)"
    and "read_int32 data (offset + 8) = Some len"
    and "12 \<le> sint len" and "sint len \<le> 65536"
    and "offset + sint len \<le> int (length data)"
  shows "\<exists>param. parseParameters_body data offset
                    = Some (Some (param, offset + round_up4 (sint len)))
           \<and> Length param = len
           \<and> reaches data (offset + round_up4 (sint len)) (parameters @ [param])
           \<and> parseParameters_loop data offset parameters
               = parseParameters_loop data (offset + round_up4 (sint len)) (parameters @ [param])
           \<and> (\<exists>rest. parseParameters data count = Some (parameters @ param # rest, None))
           \<and> offset mod 4 = 0
           \<and> (offset + round_up4 (sint len)) mod 4 = 0
           \<and> offset + sint len \<le> offset + round_up4 (sint len)"
proof -
  from reaches_inv [OF assms(1)] have pos: "0 \<le> offset" and al: "offset mod 4 = 0" by simp_all
  obtain parameter where p: "read_int32 data offset = Some parameter"
    using read_int32_total [of offset data] pos assms(2) by auto
  obtain ty where t: "read_int32 data (offset + 4) = Some ty"
    using read_int32_total [of "offset + 4" data] pos assms(2) by auto
  obtain v where v: "parseParameters_value data offset ty len = Some v"
    using parseParameters_value_total [OF pos assms(4,5,6)] by blast
  define param where
    "param = \<lparr> Parameter = parameter, PCFParameter.Type = ty, Length = len, Value = v \<rparr>"
  have b: "parseParameters_body data offset = Some (Some (param, offset + round_up4 (sint len)))"
    using parseParameters_body_good [OF assms(2) p t assms(3,4,5,6) v]
    by (simp add: param_def align4_round_up4 [OF al])
  have lt: "offset < int (length data)" using assms(2) by simp
  have r: "reaches data (offset + round_up4 (sint len)) (parameters @ [param])"
    using assms(1) lt b by (rule reaches.step)
  have loop: "parseParameters_loop data offset parameters
               = parseParameters_loop data (offset + round_up4 (sint len)) (parameters @ [param])"
    using reaches_loop [OF assms(1)] reaches_loop [OF r] by simp
  have run: "\<exists>rest. parseParameters data count = Some (parameters @ param # rest, None)"
    using assms(1) lt b by (rule reaches_continue)
  have m: "(offset + round_up4 (sint len)) mod 4 = 0"
    using al round_up4_mod [of "sint len"] by (simp add: mod_add_eq [symmetric, of offset])
  have l: "Length param = len" by (simp add: param_def)
  have ge: "offset + sint len \<le> offset + round_up4 (sint len)"
    using round_up4_ge [of "sint len"] by simp
  show ?thesis
  proof (intro exI [of _ param] conjI)
    show "parseParameters_body data offset = Some (Some (param, offset + round_up4 (sint len)))"
      by (rule b)
    show "Length param = len" by (rule l)
    show "reaches data (offset + round_up4 (sint len)) (parameters @ [param])" by (rule r)
    show "parseParameters_loop data offset parameters
            = parseParameters_loop data (offset + round_up4 (sint len)) (parameters @ [param])"
      by (rule loop)
    show "\<exists>rest. parseParameters data count = Some (parameters @ param # rest, None)"
      by (rule run)
    show "offset mod 4 = 0" by (rule al)
    show "(offset + round_up4 (sint len)) mod 4 = 0" by (rule m)
    show "offset + sint len \<le> offset + round_up4 (sint len)" by (rule ge)
  qed
qed

theorem parseParameters_cursor_advance_witness:
  "reaches example_params 16 [example_p1]
   \<and> 16 + 12 \<le> int (length example_params)
   \<and> read_int32 example_params (16 + 8) = Some 13
   \<and> 12 \<le> sint (13 :: int32) \<and> sint (13 :: int32) \<le> 65536
   \<and> 16 + sint (13 :: int32) \<le> int (length example_params)
   \<and> parseParameters_body example_params 16 = Some (Some (example_p2, 32))
   \<and> round_up4 (sint (13 :: int32)) = 16
   \<and> reaches example_params 32 [example_p1, example_p2]
   \<and> parseParameters_loop example_params 16 [example_p1]
       = parseParameters_loop example_params 32 [example_p1, example_p2]
   \<and> (\<exists>rest. parseParameters example_params 3 = Some ([example_p1] @ example_p2 # rest, None))"
proof -
  have h2: "16 + 12 \<le> int (length example_params)" by (simp add: example_length)
  have h3: "read_int32 example_params (16 + 8) = Some 13" using example_read_24 by simp
  have h4: "12 \<le> sint (13 :: int32)" and h5: "sint (13 :: int32) \<le> 65536" by simp_all
  have h6: "16 + sint (13 :: int32) \<le> int (length example_params)" by (simp add: example_length)
  have r: "round_up4 (sint (13 :: int32)) = 16" by (simp add: round_up4_def)
  have r16: "16 + round_up4 (sint (13 :: int32)) = 32" by (simp add: round_up4_def)
  from parseParameters_cursor_advance [OF example_reaches_16 h2 h3 h4 h5 h6, of 3]
  obtain param where b: "parseParameters_body example_params 16
        = Some (Some (param, 16 + round_up4 (sint (13 :: int32))))"
    and lp: "parseParameters_loop example_params 16 [example_p1]
           = parseParameters_loop example_params (16 + round_up4 (sint (13 :: int32)))
               ([example_p1] @ [param])"
    and run: "\<exists>rest. parseParameters example_params 3 = Some ([example_p1] @ param # rest, None)"
    by blast
  from b example_body_16 have pe: "param = example_p2" by simp
  have c1: "parseParameters_body example_params 16 = Some (Some (example_p2, 32))"
    by (rule example_body_16)
  have c2: "parseParameters_loop example_params 16 [example_p1]
       = parseParameters_loop example_params 32 [example_p1, example_p2]"
    using lp unfolding pe r16 by simp
  have c3: "\<exists>rest. parseParameters example_params 3 = Some ([example_p1] @ example_p2 # rest, None)"
    using run unfolding pe .
  from example_reaches_16 h2 h3 h4 h5 h6 c1 r example_reaches_32 c2 c3 show ?thesis
    by (intro conjI)
qed

subsection \<open>C5\<close>

text \<open>
  A string parameter that declares the length 12 has an empty payload, and the guard
  \<^verbatim>\<open>param.Length > 12\<close> leaves its value \<open>nil\<close>: the decoded value is not the empty
  string that cutting the payload at the first NUL byte would give.
\<close>

theorem empty_string_payload_counterexample:
  "parseParameters example_empty_string 1
     = Some ([\<lparr> Parameter = 2016, PCFParameter.Type = MQCFT_STRING, Length = 12,
                 Value = VNil \<rparr>], None)
   \<and> slice example_empty_string 12 12 = Some []
   \<and> VNil \<noteq> VString (cleanString [])"
proof -
  have l: "length example_empty_string = 12" by (simp add: example_empty_string_def)
  have "parseParameters_loop example_empty_string 0 []
          = Some [\<lparr> Parameter = 2016, PCFParameter.Type = MQCFT_STRING, Length = 12,
                    Value = VNil \<rparr>]"
    by (simp add: parseParameters_loop.simps [of example_empty_string 0]
          parseParameters_loop.simps [of example_empty_string 12] example_empty_string_body l)
  then have "parseParameters example_empty_string 1
     = Some ([\<lparr> Parameter = 2016, PCFParameter.Type = MQCFT_STRING, Length = 12,
                 Value = VNil \<rparr>], None)"
    by (simp add: parseParameters_def)
  moreover have "slice example_empty_string 12 12 = Some []"
    by (simp add: slice_def l)
  ultimately show ?thesis by simp
qed

text \<open>
  C5, as the code has it.  Text values.  When a run of \<open>parseParameters\<close> arrives at a
  parameter of type \<open>MQCFT_STRING\<close> whose declared length is valid and fits the buffer, with
  payload bytes \<open>payload\<close> (the bytes after the 12-byte sub-header), the parameter is
  appended to the result, and its value is: \<open>nil\<close> when the payload is empty (declared
  length 12); otherwise the string of the payload bytes before the first NUL byte, which
  is the whole payload when it has no NUL byte.  \<open>cleanString\<close> cuts every string at its
  first NUL byte and changes nothing else: spaces stay.
\<close>

theorem string_value_cut_at_first_NUL:
  assumes "reaches data offset parameters"
    and "offset + 12 \<le> int (length data)"
    and "read_int32 data offset = Some tag"
    and "read_int32 data (offset + 4) = Some MQCFT_STRING"
    and "read_int32 data (offset + 8) = Some len"
    and "12 \<le> sint len" and "sint len \<le> 65536"
    and "offset + sint len \<le> int (length data)"
    and "slice data (offset + 12) (offset + sint len) = Some payload"
  shows "(\<exists>rest. parseParameters data count
                  = Some (parameters
                          @ \<lparr> Parameter = tag, PCFParameter.Type = MQCFT_STRING, Length = len,
                              Value = (if payload = [] then VNil
                                       else VString (takeWhile (\<lambda>b. b \<noteq> 0) payload)) \<rparr>
                          # rest, None))
         \<and> parseParameters_body data offset
             = Some (Some (\<lparr> Parameter = tag, PCFParameter.Type = MQCFT_STRING, Length = len,
                              Value = (if payload = [] then VNil
                                       else VString (takeWhile (\<lambda>b. b \<noteq> 0) payload)) \<rparr>,
                           align4 (offset + sint len)))
         \<and> (payload = [] \<longleftrightarrow> sint len = 12)
         \<and> (0 \<notin> set payload \<longrightarrow> takeWhile (\<lambda>b. b \<noteq> 0) payload = payload)
         \<and> (\<forall>s. cleanString s = takeWhile (\<lambda>b. b \<noteq> 0) s)"
proof -
  define param where
    "param = \<lparr> Parameter = tag, PCFParameter.Type = MQCFT_STRING, Length = len,
               Value = (if payload = [] then VNil
                        else VString (takeWhile (\<lambda>b. b \<noteq> 0) payload)) \<rparr>"
  have v: "parseParameters_value data offset MQCFT_STRING len = Some (Value param)"
    using parseParameters_value_string [OF assms(6,7,9)] by (simp add: param_def)
  have b: "parseParameters_body data offset = Some (Some (param, align4 (offset + sint len)))"
    using parseParameters_body_good [OF assms(2,3,4,5,6,7,8) v] by (simp add: param_def)
  have lt: "offset < int (length data)" using assms(2) by simp
  have run: "\<exists>rest. parseParameters data count = Some (parameters @ param # rest, None)"
    using assms(1) lt b by (rule reaches_continue)
  have e: "payload = [] \<longleftrightarrow> sint len = 12"
    using slice_length [OF assms(9)] by auto
  have t: "0 \<notin> set payload \<longrightarrow> takeWhile (\<lambda>b. b \<noteq> 0) payload = payload"
    by (auto intro: takeWhile_eq_all_conv [THEN iffD2])
  from run b e t cleanString_takeWhile show ?thesis unfolding param_def by blast
qed

theorem string_value_cut_at_first_NUL_witness:
  "reaches example_params 32 [example_p1, example_p2]
   \<and> 32 + 12 \<le> int (length example_params)
   \<and> read_int32 example_params 32 = Some 2016
   \<and> read_int32 example_params (32 + 4) = Some MQCFT_STRING
   \<and> read_int32 example_params (32 + 8) = Some 16
   \<and> 12 \<le> sint (16 :: int32) \<and> sint (16 :: int32) \<le> 65536
   \<and> 32 + sint (16 :: int32) \<le> int (length example_params)
   \<and> slice example_params (32 + 12) (32 + sint (16 :: int32)) = Some [0x41, 0x20, 0, 0x42]
   \<and> (\<exists>rest. parseParameters example_params 3
              = Some ([example_p1, example_p2]
                      @ \<lparr> Parameter = 2016, PCFParameter.Type = MQCFT_STRING, Length = 16,
                          Value = VString [0x41, 0x20] \<rparr> # rest, None))
   \<and> parseParameters_body example_params 32
        = Some (Some (\<lparr> Parameter = 2016, PCFParameter.Type = MQCFT_STRING, Length = 16,
                         Value = VString [0x41, 0x20] \<rparr>, 48))
   \<and> cleanString [0x20, 0x41, 0x20] = [0x20, 0x41, 0x20]"
proof -
  have h2: "32 + 12 \<le> int (length example_params)" by (simp add: example_length)
  have h3: "read_int32 example_params 32 = Some 2016" by (rule example_read_32)
  have h4: "read_int32 example_params (32 + 4) = Some MQCFT_STRING"
    using example_read_36 by (simp add: MQCFT_STRING_def)
  have h5: "read_int32 example_params (32 + 8) = Some 16" using example_read_40 by simp
  have h6: "12 \<le> sint (16 :: int32)" and h7: "sint (16 :: int32) \<le> 65536" by simp_all
  have h8: "32 + sint (16 :: int32) \<le> int (length example_params)" by (simp add: example_length)
  have h9: "slice example_params (32 + 12) (32 + sint (16 :: int32)) = Some [0x41, 0x20, 0, 0x42]"
    using example_payload by simp
  from string_value_cut_at_first_NUL [OF example_reaches_32 h2 h3 h4 h5 h6 h7 h8 h9, of 3]
  have "\<exists>rest. parseParameters example_params 3
              = Some ([example_p1, example_p2]
                      @ \<lparr> Parameter = 2016, PCFParameter.Type = MQCFT_STRING, Length = 16,
                          Value = VString [0x41, 0x20] \<rparr> # rest, None)"
    and "parseParameters_body example_params 32
        = Some (Some (\<lparr> Parameter = 2016, PCFParameter.Type = MQCFT_STRING, Length = 16,
                         Value = VString [0x41, 0x20] \<rparr>, 48))"
    and "cleanString [0x20, 0x41, 0x20] = [0x20, 0x41, 0x20]"
    by (simp_all add: align4_def)
  then show ?thesis using example_reaches_32 h2 h3 h4 h5 h6 h7 h8 h9 by blast
qed

subsection \<open>C6\<close>

text \<open>
  The default branch of \<open>ParseMessage\<close> sets \<open>Type\<close> to its argument \<open>msgType\<close>, not to the
  constant \<open>statistics\<close>: on the header-only message with command \<open>0x99\<close> and the argument
  \<open>accounting\<close> (what the collector passes for the accounting queue) the record has the type
  \<open>accounting\<close>.
\<close>

theorem generic_record_type_counterexample:
  "ParseMessage example_env example_unknown_message (go_str ''accounting'')
     = Some (Some (StatisticsDataPtr
               \<lparr> StatisticsData.Type = go_str ''accounting'', StatisticsData.QueueManager = [],
                 StatisticsData.Timestamp = 1, StatisticsData.Parameters = Map.empty,
                 QueueStats = None, ChannelStats = None, MQIStats = None \<rparr>), None)
   \<and> go_str ''accounting'' \<noteq> go_str ''statistics''"
proof -
  have l: "36 \<le> length example_unknown_message" by (simp add: example_unknown_length)
  from parseHeader_total [OF l] obtain h
    where h: "parseHeader example_unknown_message = Some (Some h, None)"
      and c: "read_int32 example_unknown_message 12 = Some (Command h)" by blast
  from c example_unknown_command have cmd: "Command h = 0x99" by simp
  have d: "drop 36 example_unknown_message = []" by (simp add: example_unknown_length)
  have p: "parseParameters (drop 36 example_unknown_message) (ParameterCount h) = Some ([], None)"
    unfolding d by (rule parseParameters_Nil)
  have "ParseMessage example_env example_unknown_message (go_str ''accounting'')
     = Some (Some (StatisticsDataPtr
               \<lparr> StatisticsData.Type = go_str ''accounting'', StatisticsData.QueueManager = [],
                 StatisticsData.Timestamp = 1, StatisticsData.Parameters = Map.empty,
                 QueueStats = None, ChannelStats = None, MQIStats = None \<rparr>), None)"
    unfolding ParseMessage_long [OF l h p]
    by (simp add: cmd is_statistics_command_def is_accounting_command_def
          MQCMD_STATISTICS_Q_def MQCMD_STATISTICS_CHANNEL_def MQCMD_STATISTICS_MQI_def
          MQCMD_ACCOUNTING_Q_def MQCMD_ACCOUNTING_MQI_def example_env_def convertParameters_def)
  moreover have "go_str ''accounting'' \<noteq> go_str ''statistics''"
    by (simp add: go_str_def)
  ultimately show ?thesis by simp
qed

text \<open>
  C6, as the code has it.  For every buffer of at least 36 bytes whose command code is none
  of the three statistics and two accounting commands, and for every \<open>msgType\<close>,
  \<open>ParseMessage\<close> returns, with a \<open>nil\<close> error, a \<open>StatisticsData\<close> record whose \<open>Type\<close> is
  \<open>msgType\<close>, whose raw parameter map is built from the parameters decoded from the bytes
  after the header, whose timestamp is the clock reading, whose queue manager name is
  empty, and which has no queue, channel or MQI part.
\<close>

theorem ParseMessage_unknown_command:
  assumes "36 \<le> length data" and "read_int32 data 12 = Some command"
    and "command \<noteq> MQCMD_STATISTICS_Q" and "command \<noteq> MQCMD_STATISTICS_CHANNEL"
    and "command \<noteq> MQCMD_STATISTICS_MQI"
    and "command \<noteq> MQCMD_ACCOUNTING_Q" and "command \<noteq> MQCMD_ACCOUNTING_MQI"
  shows "\<exists>parameters.
           parseParameters (drop 36 data) count = Some (parameters, None)
           \<and> ParseMessage env data msgType
               = Some (Some (StatisticsDataPtr
                         \<lparr> StatisticsData.Type = msgType, StatisticsData.QueueManager = [],
                           StatisticsData.Timestamp = time_Now env,
                           StatisticsData.Parameters = convertParameters parameters,
                           QueueStats = None, ChannelStats = None, MQIStats = None \<rparr>), None)"
proof -
  from parseHeader_total [OF assms(1)] obtain h
    where h: "parseHeader data = Some (Some h, None)"
      and c: "read_int32 data 12 = Some (Command h)" by blast
  from c assms(2) have cmd: "Command h = command" by simp
  from parseParameters_total obtain parameters
    where p: "parseParameters (drop 36 data) (ParameterCount h) = Some (parameters, None)"
    by blast
  then have p': "parseParameters (drop 36 data) count = Some (parameters, None)"
    by (simp add: parseParameters_def)
  have "ParseMessage env data msgType
               = Some (Some (StatisticsDataPtr
                         \<lparr> StatisticsData.Type = msgType, StatisticsData.QueueManager = [],
                           StatisticsData.Timestamp = time_Now env,
                           StatisticsData.Parameters = convertParameters parameters,
                           QueueStats = None, ChannelStats = None, MQIStats = None \<rparr>), None)"
    unfolding ParseMessage_long [OF assms(1) h p]
    using assms(3-7) by (simp add: cmd is_statistics_command_def is_accounting_command_def)
  with p' show ?thesis by blast
qed

theorem ParseMessage_unknown_command_witness:
  "36 \<le> length example_unknown_message
   \<and> read_int32 example_unknown_message 12 = Some 0x99
   \<and> (0x99 :: int32) \<noteq> MQCMD_STATISTICS_Q \<and> (0x99 :: int32) \<noteq> MQCMD_STATISTICS_CHANNEL
   \<and> (0x99 :: int32) \<noteq> MQCMD_STATISTICS_MQI
   \<and> (0x99 :: int32) \<noteq> MQCMD_ACCOUNTING_Q \<and> (0x99 :: int32) \<noteq> MQCMD_ACCOUNTING_MQI
   \<and> (\<exists>parameters.
         parseParameters (drop 36 example_unknown_message) 0 = Some (parameters, None)
         \<and> ParseMessage example_env example_unknown_message (go_str ''accounting'')
             = Some (Some (StatisticsDataPtr
                       \<lparr> StatisticsData.Type = go_str ''accounting'', StatisticsData.QueueManager = [],
                         StatisticsData.Timestamp = time_Now example_env,
                         StatisticsData.Parameters = convertParameters parameters,
                         QueueStats = None, ChannelStats = None, MQIStats = None \<rparr>), None))"
proof -
  have h1: "36 \<le> length example_unknown_message" by (simp add: example_unknown_length)
  have h3: "(0x99 :: int32) \<noteq> MQCMD_STATISTICS_Q" and h4: "(0x99 :: int32) \<noteq> MQCMD_STATISTICS_CHANNEL"
    and h5: "(0x99 :: int32) \<noteq> MQCMD_STATISTICS_MQI"
    and h6: "(0x99 :: int32) \<noteq> MQCMD_ACCOUNTING_Q" and h7: "(0x99 :: int32) \<noteq> MQCMD_ACCOUNTING_MQI"
    by (simp_all add: MQCMD_STATISTICS_Q_def MQCMD_STATISTICS_CHANNEL_def MQCMD_STATISTICS_MQI_def
          MQCMD_ACCOUNTING_Q_def MQCMD_ACCOUNTING_MQI_def)
  from ParseMessage_unknown_command [OF h1 example_unknown_command h3 h4 h5 h6 h7,
      of 0 example_env "go_str ''accounting''"]
  show ?thesis using h1 example_unknown_command h3 h4 h5 h6 h7 by blast
qed

subsection \<open>C7: header round trip\<close>

text \<open>
  C7.  For every header \<open>h\<close>, writing its nine fields as 4-byte little-endian words at
  offsets 0, 4, ..., 32 and decoding the 36 bytes with \<open>parseHeader\<close> gives \<open>h\<close> back,
  field for field, with a nil error and without panic.
\<close>

theorem parseHeader_encodeHeader:
  "parseHeader (encodeHeader h) = Some (Some h, None)"
proof -
  have len: "length (LittleEndian_PutUint32 v) = 4" for v
    by (simp add: LittleEndian_PutUint32_def)
  have l36: "length (encodeHeader h) = 36"
    by (simp add: encodeHeader_def len)
  have r0: "read_int32 (encodeHeader h) 0 = Some (PCFHeader.Type h)"
    unfolding encodeHeader_def using read_int32_PutUint32 [of "[]" 0] by simp
  have r4: "read_int32 (encodeHeader h) 4 = Some (StrucLength h)"
    unfolding encodeHeader_def
    using read_int32_PutUint32 [of "LittleEndian_PutUint32 (PCFHeader.Type h)" 4 "StrucLength h"]
    by (simp add: len)
  have r8: "read_int32 (encodeHeader h) 8 = Some (Version h)"
    unfolding encodeHeader_def
    using read_int32_PutUint32 [of "LittleEndian_PutUint32 (PCFHeader.Type h) @
        LittleEndian_PutUint32 (StrucLength h)" 8 "Version h"]
    by (simp add: len)
  have r12: "read_int32 (encodeHeader h) 12 = Some (Command h)"
    unfolding encodeHeader_def
    using read_int32_PutUint32 [of "LittleEndian_PutUint32 (PCFHeader.Type h) @
        LittleEndian_PutUint32 (StrucLength h) @ LittleEndian_PutUint32 (Version h)" 12 "Command h"]
    by (simp add: len)
  have r16: "read_int32 (encodeHeader h) 16 = Some (MsgSeqNumber h)"
    unfolding encodeHeader_def
    using read_int32_PutUint32 [of "LittleEndian_PutUint32 (PCFHeader.Type h) @
        LittleEndian_PutUint32 (StrucLength h) @ LittleEndian_PutUint32 (Version h) @
        LittleEndian_PutUint32 (Command h)" 16 "MsgSeqNumber h"]
    by (simp add: len)
  have r20: "read_int32 (encodeHeader h) 20 = Some (Control h)"
    unfolding encodeHeader_def
    using read_int32_PutUint32 [of "LittleEndian_PutUint32 (PCFHeader.Type h) @
        LittleEndian_PutUint32 (StrucLength h) @ LittleEndian_PutUint32 (Version h) @
        LittleEndian_PutUint32 (Command h) @ LittleEndian_PutUint32 (MsgSeqNumber h)" 20 "Control h"]
    by (simp add: len)
  have r24: "read_int32 (encodeHeader h) 24 = Some (CompCode h)"
    unfolding encodeHeader_def
    using read_int32_PutUint32 [of "LittleEndian_PutUint32 (PCFHeader.Type h) @
        LittleEndian_PutUint32 (StrucLength h) @ LittleEndian_PutUint32 (Version h) @
        LittleEndian_PutUint32 (Command h) @ LittleEndian_PutUint32 (MsgSeqNumber h) @
        LittleEndian_PutUint32 (Control h)" 24 "CompCode h"]
    by (simp add: len)
  have r28: "read_int32 (encodeHeader h) 28 = Some (Reason h)"
    unfolding encodeHeader_def
    using read_int32_PutUint32 [of "LittleEndian_PutUint32 (PCFHeader.Type h) @
        LittleEndian_PutUint32 (StrucLength h) @ LittleEndian_PutUint32 (Version h) @
        LittleEndian_PutUint32 (Command h) @ LittleEndian_PutUint32 (MsgSeqNumber h) @
        LittleEndian_PutUint32 (Control h) @ LittleEndian_PutUint32 (CompCode h)" 28 "Reason h"]
    by (simp add: len)
  have r32: "read_int32 (encodeHeader h) 32 = Some (ParameterCount h)"
    unfolding encodeHeader_def
    using read_int32_PutUint32 [of "LittleEndian_PutUint32 (PCFHeader.Type h) @
        LittleEndian_PutUint32 (StrucLength h) @ LittleEndian_PutUint32 (Version h) @
        LittleEndian_PutUint32 (Command h) @ LittleEndian_PutUint32 (MsgSeqNumber h) @
        LittleEndian_PutUint32 (Control h) @ LittleEndian_PutUint32 (CompCode h) @
        LittleEndian_PutUint32 (Reason h)" 32 "ParameterCount h" "[]"]
    by (simp add: len)
  show ?thesis
    by (simp add: parseHeader_def l36 r0 r4 r8 r12 r16 r20 r24 r28 r32)
qed

subsection \<open>C8\<close>

text \<open>
  C8.  The declared parameter count is not used: \<open>parseParameters\<close> gives the same result
  for the same bytes, whatever the count.
\<close>

theorem parseParameters_ignores_count:
  "parseParameters data c1 = parseParameters data c2"
  by (simp add: parseParameters_def)

subsection \<open>C9\<close>

text \<open>
  C9.  Unknown type tags.  When a run of \<open>parseParameters\<close> arrives at a cursor where the
  parameter has a type tag other than integer, string and byte string, and a declared
  length that is valid and fits the buffer, the parameter is appended to the result after
  the parameters decoded so far, with the value \<open>nil\<close>; the function returns a \<open>nil\<close>
  error, and the key of its tag is in the raw parameter map built from the result.
\<close>

theorem parseParameters_unknown_type:
  assumes "reaches data offset parameters"
    and "offset + 12 \<le> int (length data)"
    and "read_int32 data offset = Some tag"
    and "read_int32 data (offset + 4) = Some ty"
    and "read_int32 data (offset + 8) = Some len"
    and "ty \<noteq> MQCFT_INTEGER" and "ty \<noteq> MQCFT_STRING" and "ty \<noteq> MQCFT_BYTE_STRING"
    and "12 \<le> sint len" and "sint len \<le> 65536"
    and "offset + sint len \<le> int (length data)"
  shows "\<exists>rest. parseParameters data count
                   = Some (parameters @ \<lparr> Parameter = tag, PCFParameter.Type = ty, Length = len,
                                           Value = VNil \<rparr> # rest, None)
               \<and> convertParameters (parameters @ \<lparr> Parameter = tag, PCFParameter.Type = ty,
                                        Length = len, Value = VNil \<rparr> # rest) (param_key tag) \<noteq> None"
proof -
  define param where
    "param = \<lparr> Parameter = tag, PCFParameter.Type = ty, Length = len, Value = VNil \<rparr>"
  have v: "parseParameters_value data offset ty len = Some VNil"
    using assms(6,7,8) by (simp add: parseParameters_value_def)
  have b: "parseParameters_body data offset = Some (Some (param, align4 (offset + sint len)))"
    using parseParameters_body_good [OF assms(2,3,4,5) assms(9,10,11) v] by (simp add: param_def)
  have lt: "offset < int (length data)" using assms(2) by simp
  from reaches_continue [OF assms(1) lt b]
  obtain rest where r: "parseParameters data count = Some (parameters @ param # rest, None)"
    by blast
  have "param_key tag \<in> dom (convertParameters (parameters @ param # rest))"
    unfolding dom_convertParameters by (auto simp add: param_def)
  then have "convertParameters (parameters @ param # rest) (param_key tag) \<noteq> None"
    by blast
  with r show ?thesis unfolding param_def by blast
qed

theorem parseParameters_unknown_type_witness:
  "reaches example_params 16 [example_p1]
   \<and> 16 + 12 \<le> int (length example_params)
   \<and> read_int32 example_params 16 = Some 7
   \<and> read_int32 example_params (16 + 4) = Some 5
   \<and> read_int32 example_params (16 + 8) = Some 13
   \<and> (5 :: int32) \<noteq> MQCFT_INTEGER \<and> (5 :: int32) \<noteq> MQCFT_STRING \<and> (5 :: int32) \<noteq> MQCFT_BYTE_STRING
   \<and> 12 \<le> sint (13 :: int32) \<and> sint (13 :: int32) \<le> 65536
   \<and> 16 + sint (13 :: int32) \<le> int (length example_params)
   \<and> (\<exists>rest. parseParameters example_params 3 = Some ([example_p1] @ example_p2 # rest, None)
          \<and> convertParameters ([example_p1] @ example_p2 # rest) (param_key 7) \<noteq> None)"
proof -
  have h2: "16 + 12 \<le> int (length example_params)" by (simp add: example_length)
  have h3: "read_int32 example_params 16 = Some 7" by (rule example_read_16)
  have h4: "read_int32 example_params (16 + 4) = Some 5" using example_read_20 by simp
  have h5: "read_int32 example_params (16 + 8) = Some 13" using example_read_24 by simp
  have h6: "(5 :: int32) \<noteq> MQCFT_INTEGER" and h7: "(5 :: int32) \<noteq> MQCFT_STRING"
    and h8: "(5 :: int32) \<noteq> MQCFT_BYTE_STRING"
    by (simp_all add: MQCFT_INTEGER_def MQCFT_STRING_def MQCFT_BYTE_STRING_def)
  have h9: "12 \<le> sint (13 :: int32)" and h10: "sint (13 :: int32) \<le> 65536" by simp_all
  have h11: "16 + sint (13 :: int32) \<le> int (length example_params)" by (simp add: example_length)
  from parseParameters_unknown_type [OF example_reaches_16 h2 h3 h4 h5 h6 h7 h8 h9 h10 h11, of 3]
  have "\<exists>rest. parseParameters example_params 3 = Some ([example_p1] @ example_p2 # rest, None)
          \<and> convertParameters ([example_p1] @ example_p2 # rest) (param_key 7) \<noteq> None"
    by (simp add: example_p2_def)
  then show ?thesis using example_reaches_16 h2 h3 h4 h5 h6 h7 h8 h9 h10 h11 by blast
qed

subsection \<open>C10\<close>

text \<open>
  C10.  \<open>parseParameters\<close> returns a \<open>nil\<close> error for every buffer and every count (and
  never panics), so \<open>ParseMessage\<close> never returns the error that wraps a failure of
  \<open>parseParameters\<close>: that branch is never taken.
\<close>

theorem parseParameters_error_always_nil:
  "(\<exists>parameters. parseParameters data count = Some (parameters, None))
   \<and> (\<forall>e. ParseMessage env message msgType
            \<noteq> Some (None, Some (Errorf_w ''failed to parse PCF parameters: %w'' e)))"
proof -
  have "ParseMessage env message msgType
            \<noteq> Some (None, Some (Errorf_w ''failed to parse PCF parameters: %w'' e))" for e
  proof (cases "length message < 36")
    case True
    then show ?thesis by (simp add: ParseMessage_short)
  next
    case False
    then have "36 \<le> length message" by simp
    from ParseMessage_long_ok [OF this, of env msgType] show ?thesis by auto
  qed
  with parseParameters_total [of data count] show ?thesis by blast
qed

end
